theory Spec2Isabelle
  imports Complex_Main "HOL-Library.AList" "HOL-Library.Sublist"
begin

section \<open>Strings of the program\<close>

text \<open>
  A JavaScript string is modelled as a \<^typ>\<open>string\<close>: a list of characters, each standing
  for one code unit in the range U+0000 .. U+00FF. The characters the sources name
  explicitly get a constant of their own.
\<close>

definition dquote :: char where
  "dquote = CHR 0x22"

definition newline :: char where
  "newline = CHR 0x0A"

definition creturn :: char where
  "creturn = CHR 0x0D"

definition comma :: char where
  "comma = CHR 0x2C"

definition space :: char where
  "space = CHR 0x20"

text \<open>
  The white space and line terminators that \<^verbatim>\<open>String.prototype.trim\<close> removes and that
  \<^verbatim>\<open>Number(string)\<close> skips at both ends: TAB, LF, VT, FF, CR, SP and NBSP.
\<close>

definition is_ws :: "char \<Rightarrow> bool" where
  "is_ws c = (c = CHR 0x09 \<or> c = CHR 0x0A \<or> c = CHR 0x0B \<or> c = CHR 0x0C \<or>
              c = CHR 0x0D \<or> c = CHR 0x20 \<or> c = CHR 0xA0)"

definition js_trim :: "string \<Rightarrow> string" where
  "js_trim s = rev (dropWhile is_ws (rev (dropWhile is_ws s)))"

section \<open>The CSV parser of the report pipeline\<close>

text \<open>
  \<^verbatim>\<open>text.replace(/\r\n/g, "\n").replace(/\r/g, "\n")\<close>: first every CR LF pair becomes
  LF, then every remaining CR becomes LF.
\<close>

fun replace_crlf :: "string \<Rightarrow> string" where
  "replace_crlf (c # d # cs) =
     (if c = creturn \<and> d = newline then newline # replace_crlf cs
      else c # replace_crlf (d # cs))"
| "replace_crlf cs = cs"

definition replace_cr :: "string \<Rightarrow> string" where
  "replace_cr cs = map (\<lambda>c. if c = creturn then newline else c) cs"

definition normalizeEol :: "string \<Rightarrow> string" where
  "normalizeEol text = replace_cr (replace_crlf text)"

text \<open>
  \<^verbatim>\<open>splitCsvLine(line)\<close>. The loop over the index \<^verbatim>\<open>i\<close> becomes a recursion over the
  characters not yet read; \<^verbatim>\<open>line[i + 1]\<close> is the head of the rest (\<^verbatim>\<open>undefined\<close>
  when the rest is empty), and the \<^verbatim>\<open>i++\<close> of an escaped quote drops that head.
  The state is \<^verbatim>\<open>out\<close>, \<^verbatim>\<open>cur\<close> and \<^verbatim>\<open>inQ\<close>.
\<close>

fun splitCsvLine_loop :: "string \<Rightarrow> string list \<Rightarrow> string \<Rightarrow> bool \<Rightarrow> string list" where
  "splitCsvLine_loop [] out cur inQ = out @ [cur]"
| "splitCsvLine_loop (ch # rest) out cur inQ =
     (if inQ then
        (if ch = dquote then
           (case rest of
              [] \<Rightarrow> splitCsvLine_loop rest out cur False
            | d # rest' \<Rightarrow>
                if d = dquote then splitCsvLine_loop rest' out (cur @ [dquote]) inQ
                else splitCsvLine_loop rest out cur False)
         else splitCsvLine_loop rest out (cur @ [ch]) inQ)
      else
        (if ch = comma then splitCsvLine_loop rest (out @ [cur]) [] inQ
         else if ch = dquote then splitCsvLine_loop rest out cur True
         else splitCsvLine_loop rest out (cur @ [ch]) inQ))"

definition splitCsvLine :: "string \<Rightarrow> string list" where
  "splitCsvLine line = splitCsvLine_loop line [] [] False"

text \<open>
  \<^verbatim>\<open>buf.replace(/\n$/, "")\<close>: one final LF is removed when there is one.
\<close>

definition strip_final_newline :: "string \<Rightarrow> string" where
  "strip_final_newline buf = (if buf \<noteq> [] \<and> last buf = newline then butlast buf else buf)"

text \<open>
  The record splitter of \<^verbatim>\<open>parseCsvToObjects\<close>. Every character read is appended to
  \<^verbatim>\<open>buf\<close>. On a quote, a following quote is skipped by \<^verbatim>\<open>i++\<close> (it is never read, so
  it never reaches \<^verbatim>\<open>buf\<close>) and \<^verbatim>\<open>inQ\<close> stays; otherwise \<^verbatim>\<open>inQ\<close> is toggled. The
  test \<^verbatim>\<open>ch === '\n' && !inQ\<close> that follows can only hold when the character is not a
  quote, so it is the second branch here. The loop returns \<^verbatim>\<open>records\<close>, \<^verbatim>\<open>buf\<close>
  and \<^verbatim>\<open>inQ\<close> as they stand when the text is exhausted.
\<close>

fun splitRecords_loop ::
  "string \<Rightarrow> string list \<Rightarrow> string \<Rightarrow> bool \<Rightarrow> string list \<times> string \<times> bool" where
  "splitRecords_loop [] records buf inQ = (records, buf, inQ)"
| "splitRecords_loop (ch # rest) records buf inQ =
     (if ch = dquote then
        (case rest of
           [] \<Rightarrow> splitRecords_loop rest records (buf @ [ch]) (\<not> inQ)
         | d # rest' \<Rightarrow>
             if d = dquote then splitRecords_loop rest' records (buf @ [ch]) inQ
             else splitRecords_loop rest records (buf @ [ch]) (\<not> inQ))
      else if ch = newline \<and> \<not> inQ then
        splitRecords_loop rest (records @ [strip_final_newline (buf @ [ch])]) [] inQ
      else splitRecords_loop rest records (buf @ [ch]) inQ)"

text \<open>\<^verbatim>\<open>if (buf) records.push(buf)\<close>: the trailing buffer is a record only when not empty.\<close>

definition splitRecords :: "string \<Rightarrow> string list" where
  "splitRecords text =
     (case splitRecords_loop text [] [] False of
        (records, buf, inQ) \<Rightarrow> if buf \<noteq> [] then records @ [buf] else records)"

text \<open>
  The object of one data record: \<^verbatim>\<open>obj[headers[c]] = (cols[c] ?? "").trim()\<close> for every
  header position \<^verbatim>\<open>c\<close>. An object is an association list in insertion order; assigning
  to a key that is already there overwrites its value in place, which is
  \<^const>\<open>AList.update\<close>. (A header spelt \<^verbatim>\<open>__proto__\<close> would set no property in
  JavaScript; none of the names the handlers read is spelt so.)
\<close>

fun zipRecord ::
  "string list \<Rightarrow> string list \<Rightarrow> (string \<times> string) list \<Rightarrow> (string \<times> string) list" where
  "zipRecord [] cols obj = obj"
| "zipRecord (h # hs) cols obj =
     zipRecord hs (tl cols) (AList.update h (js_trim (case cols of [] \<Rightarrow> [] | c # _ \<Rightarrow> c)) obj)"

text \<open>\<^verbatim>\<open>if (!records[i]) continue\<close>: an empty record gives no row.\<close>

fun csvRows :: "string list \<Rightarrow> string list \<Rightarrow> (string \<times> string) list list" where
  "csvRows headers [] = []"
| "csvRows headers (rec # recs) =
     (if rec = [] then csvRows headers recs
      else zipRecord headers (splitCsvLine rec) [] # csvRows headers recs)"

definition parseCsvToObjects :: "string \<Rightarrow> (string \<times> string) list list" where
  "parseCsvToObjects text =
     (case splitRecords (normalizeEol text) of
        [] \<Rightarrow> []
      | r0 # recs \<Rightarrow> csvRows (map js_trim (splitCsvLine r0)) recs)"


section \<open>JavaScript values\<close>

text \<open>
  A number is a finite value, an infinity or NaN. A finite value is kept as the rational it
  denotes: the rounding of a decimal literal to the nearest binary64 value is not
  represented, and \<^verbatim>\<open>-0\<close> is not told apart from \<^verbatim>\<open>0\<close>.
\<close>

datatype jsnum = NaN | PosInf | NegInf | Fin rat

text \<open>
  The values the handlers meet are those of \<^verbatim>\<open>JSON.parse\<close>, together with
  \<^verbatim>\<open>undefined\<close> and the non-finite numbers that the code itself produces. An object is an
  association list whose first binding of a key is the property's value.
\<close>

datatype jsval =
    JUndefined
  | JNull
  | JBool bool
  | JNum jsnum
  | JStr string
  | JArr "jsval list"
  | JObj "(string \<times> jsval) list"

datatype error =
    TypeError
  | SyntaxError
  | NetworkError string
  | ListFailed string nat string
  | AuthFailed string string

fun truthy :: "jsval \<Rightarrow> bool" where
  "truthy JUndefined = False"
| "truthy JNull = False"
| "truthy (JBool b) = b"
| "truthy (JNum NaN) = False"
| "truthy (JNum (Fin q)) = (q \<noteq> 0)"
| "truthy (JNum PosInf) = True"
| "truthy (JNum NegInf) = True"
| "truthy (JStr s) = (s \<noteq> [])"
| "truthy (JArr vs) = True"
| "truthy (JObj fs) = True"

definition nullish :: "jsval \<Rightarrow> bool" where
  "nullish v = (v = JUndefined \<or> v = JNull)"

text \<open>\<^verbatim>\<open>a || b\<close> and \<^verbatim>\<open>a ?? b\<close>.\<close>

definition js_or :: "jsval \<Rightarrow> jsval \<Rightarrow> jsval" where
  "js_or a b = (if truthy a then a else b)"

definition js_coalesce :: "jsval \<Rightarrow> jsval \<Rightarrow> jsval" where
  "js_coalesce a b = (if nullish a then b else a)"

text \<open>
  \<^verbatim>\<open>v[k]\<close> on a value that is neither \<^verbatim>\<open>undefined\<close> nor \<^verbatim>\<open>null\<close>, for the property
  names the handlers read: none of them is a property of a string, a number, a boolean
  or an array, or of \<^verbatim>\<open>Object.prototype\<close>, so only an object's own bindings answer.
  \<^verbatim>\<open>v?.k\<close> is \<^verbatim>\<open>undefined\<close> on \<^verbatim>\<open>undefined\<close> and \<^verbatim>\<open>null\<close>; \<^verbatim>\<open>v.k\<close> raises a
  \<^verbatim>\<open>TypeError\<close> there, which is written out where a handler reads that way.
\<close>

fun getprop :: "jsval \<Rightarrow> string \<Rightarrow> jsval" where
  "getprop (JObj fs) k = (case map_of fs k of None \<Rightarrow> JUndefined | Some v \<Rightarrow> v)"
| "getprop v k = JUndefined"

definition optget :: "jsval \<Rightarrow> string \<Rightarrow> jsval" where
  "optget v k = (if nullish v then JUndefined else getprop v k)"

section \<open>Conversions between strings and numbers\<close>

definition isFinite :: "jsnum \<Rightarrow> bool" where
  "isFinite n = (case n of Fin q \<Rightarrow> True | _ \<Rightarrow> False)"

text \<open>
  A mathematical value becomes a number: at and beyond \<open>2\<^sup>1\<^sup>0\<^sup>2\<^sup>4 - 2\<^sup>9\<^sup>7\<^sup>0\<close>, halfway between
  the largest binary64 value and \<open>2\<^sup>1\<^sup>0\<^sup>2\<^sup>4\<close>, it rounds to an infinity.
\<close>

definition round_number :: "rat \<Rightarrow> jsnum" where
  "round_number q =
     (if 2 ^ 1024 - 2 ^ 970 \<le> \<bar>q\<bar> then (if q < 0 then NegInf else PosInf) else Fin q)"

definition digit_in :: "nat \<Rightarrow> char \<Rightarrow> nat option" where
  "digit_in base c =
     (let n = (of_char c :: nat);
          d = (if 48 \<le> n \<and> n \<le> 57 then Some (n - 48)
               else if 97 \<le> n \<and> n \<le> 102 then Some (n - 87)
               else if 65 \<le> n \<and> n \<le> 70 then Some (n - 55)
               else None)
      in case d of None \<Rightarrow> None | Some v \<Rightarrow> if v < base then Some v else None)"

fun take_digits :: "nat \<Rightarrow> string \<Rightarrow> nat list \<times> string" where
  "take_digits base [] = ([], [])"
| "take_digits base (c # cs) =
     (case digit_in base c of
        None \<Rightarrow> ([], c # cs)
      | Some d \<Rightarrow> (case take_digits base cs of (ds, r) \<Rightarrow> (d # ds, r)))"

definition digits_val :: "nat \<Rightarrow> nat list \<Rightarrow> nat" where
  "digits_val base ds = foldl (\<lambda>a d. base * a + d) 0 ds"

definition pow10 :: "rat \<Rightarrow> int \<Rightarrow> rat" where
  "pow10 q e = (if 0 \<le> e then q * 10 ^ nat e else q / 10 ^ nat (- e))"

text \<open>An optional sign: whether it is a minus, and the rest.\<close>

definition take_sign :: "string \<Rightarrow> bool \<times> string" where
  "take_sign s =
     (case s of
        [] \<Rightarrow> (False, s)
      | c # r \<Rightarrow> if c = CHR ''-'' then (True, r) else if c = CHR ''+'' then (False, r)
                 else (False, s))"

text \<open>
  The exponent part that may end a decimal literal, read from what follows the mantissa:
  nothing, or \<^verbatim>\<open>e\<close> or \<^verbatim>\<open>E\<close>, an optional sign and at least one digit, up to the end.
\<close>

definition exponent_part :: "string \<Rightarrow> int option" where
  "exponent_part s =
     (case s of
        [] \<Rightarrow> Some 0
      | c # r \<Rightarrow>
          if c = CHR ''e'' \<or> c = CHR ''E'' then
            (case take_sign r of
               (neg, r1) \<Rightarrow>
                 (case take_digits 10 r1 of
                    (ds, rest) \<Rightarrow>
                      if ds \<noteq> [] \<and> rest = [] then
                        Some (if neg then - int (digits_val 10 ds) else int (digits_val 10 ds))
                      else None))
          else None)"

text \<open>
  An unsigned decimal literal other than \<^verbatim>\<open>Infinity\<close>: digits, an optional point and
  digits, an optional exponent; at least one digit before or after the point.
\<close>

definition unsigned_decimal :: "string \<Rightarrow> rat option" where
  "unsigned_decimal s =
     (case take_digits 10 s of
        (ip, r1) \<Rightarrow>
          (case (case r1 of
                   [] \<Rightarrow> ([], r1)
                 | c # r \<Rightarrow> if c = CHR ''.'' then take_digits 10 r else ([], r1)) of
             (fp, r2) \<Rightarrow>
               if ip = [] \<and> fp = [] then None
               else (case exponent_part r2 of
                       None \<Rightarrow> None
                     | Some e \<Rightarrow>
                         Some (pow10 (of_nat (digits_val 10 (ip @ fp))) (e - int (length fp))))))"

definition str_decimal :: "string \<Rightarrow> jsnum" where
  "str_decimal s =
     (case take_sign s of
        (neg, u) \<Rightarrow>
          if u = ''Infinity'' then (if neg then NegInf else PosInf)
          else (case unsigned_decimal u of
                  None \<Rightarrow> NaN
                | Some q \<Rightarrow> round_number (if neg then - q else q)))"

text \<open>A hexadecimal, octal or binary integer literal: \<^verbatim>\<open>0x\<close>, \<^verbatim>\<open>0o\<close>, \<^verbatim>\<open>0b\<close> and digits.\<close>

definition non_decimal :: "string \<Rightarrow> rat option" where
  "non_decimal s =
     (case s of
        z # p # r \<Rightarrow>
          (let base = (if p = CHR ''x'' \<or> p = CHR ''X'' then 16
                       else if p = CHR ''o'' \<or> p = CHR ''O'' then 8
                       else if p = CHR ''b'' \<or> p = CHR ''B'' then 2
                       else (0::nat))
           in if z = CHR ''0'' \<and> base \<noteq> 0 then
                (case take_digits base r of
                   (ds, rest) \<Rightarrow>
                     if ds \<noteq> [] \<and> rest = [] then Some (of_nat (digits_val base ds)) else None)
              else None)
      | _ \<Rightarrow> None)"

text \<open>
  \<^verbatim>\<open>Number(s)\<close> for a string: white space is trimmed, the empty string is 0, and anything
  that is not a numeric literal as a whole is NaN.
\<close>

definition StringToNumber :: "string \<Rightarrow> jsnum" where
  "StringToNumber s =
     (let t = js_trim s
      in if t = [] then Fin 0
         else (case non_decimal t of
                 Some q \<Rightarrow> round_number q
               | None \<Rightarrow> str_decimal t))"

text \<open>
  The string of a finite number. An integer below \<open>10\<^sup>2\<^sup>1\<close> in magnitude is written with
  its decimal digits and a minus sign when negative. The digits that
  \<^verbatim>\<open>Number.prototype.toString\<close> gives any other finite number are the engine's shortest
  round-trip digits: they are the parameter \<open>fs\<close>.
\<close>

fun dec_digits :: "nat \<Rightarrow> string" where
  "dec_digits n =
     (if n < 10 then [''0123456789'' ! n] else dec_digits (n div 10) @ [''0123456789'' ! (n mod 10)])"

definition finite_string :: "(rat \<Rightarrow> string) \<Rightarrow> rat \<Rightarrow> string" where
  "finite_string fs q =
     (if q = of_int \<lfloor>q\<rfloor> \<and> \<bar>q\<bar> < 10 ^ 21 then
        (if q < 0 then ''-'' else []) @ dec_digits (nat \<lfloor>\<bar>q\<bar>\<rfloor>)
      else fs q)"

text \<open>
  \<^verbatim>\<open>String(v)\<close>. An array is its elements' strings joined by commas, \<^verbatim>\<open>undefined\<close> and
  \<^verbatim>\<open>null\<close> elements giving the empty string. The conversion of an object calls its
  \<^verbatim>\<open>toString\<close> and, failing that, its \<^verbatim>\<open>valueOf\<close>. An object parsed from JSON or built
  by the CSV parser inherits both, and the inherited \<^verbatim>\<open>toString\<close> gives
  \<^verbatim>\<open>[object Object]\<close>. When the object has an own property \<^verbatim>\<open>toString\<close>, its value is
  not a function and is passed over, \<^verbatim>\<open>valueOf\<close> (passed over as well when it is an own
  property, and returning the object itself when it is inherited) gives no primitive, and
  the conversion raises a \<^verbatim>\<open>TypeError\<close>. The join of an array raises when the conversion
  of one of its elements does.
\<close>

fun join_comma :: "string list \<Rightarrow> string" where
  "join_comma [] = []"
| "join_comma [s] = s"
| "join_comma (s # t # ss) = s @ [comma] @ join_comma (t # ss)"

text \<open>The values on which \<^verbatim>\<open>String(v)\<close> raises.\<close>

fun string_raises :: "jsval \<Rightarrow> bool" where
  "string_raises (JObj kvs) = (map_of kvs ''toString'' \<noteq> None)"
| "string_raises (JArr vs) = (\<exists>v\<in>set vs. string_raises v)"
| "string_raises v = False"

text \<open>The string that \<^verbatim>\<open>String(v)\<close> returns when it does not raise.\<close>

fun string_of :: "(rat \<Rightarrow> string) \<Rightarrow> jsval \<Rightarrow> string" where
  "string_of fs JUndefined = ''undefined''"
| "string_of fs JNull = ''null''"
| "string_of fs (JBool b) = (if b then ''true'' else ''false'')"
| "string_of fs (JNum NaN) = ''NaN''"
| "string_of fs (JNum PosInf) = ''Infinity''"
| "string_of fs (JNum NegInf) = ''-Infinity''"
| "string_of fs (JNum (Fin q)) = finite_string fs q"
| "string_of fs (JStr s) = s"
| "string_of fs (JArr vs) =
     join_comma (map (\<lambda>v. if v = JUndefined \<or> v = JNull then [] else string_of fs v) vs)"
| "string_of fs (JObj kvs) = ''[object Object]''"

definition ToString :: "(rat \<Rightarrow> string) \<Rightarrow> jsval \<Rightarrow> error + string" where
  "ToString fs v = (if string_raises v then Inl TypeError else Inr (string_of fs v))"

text \<open>
  \<^verbatim>\<open>Number(v)\<close>: an array or an object is converted through its string. On the values of
  \<^const>\<open>string_raises\<close> \<^verbatim>\<open>Number(v)\<close> raises as \<^verbatim>\<open>String(v)\<close> does; \<open>ToNumber\<close> is its
  value on every other one.
\<close>

fun ToNumber :: "(rat \<Rightarrow> string) \<Rightarrow> jsval \<Rightarrow> jsnum" where
  "ToNumber fs JUndefined = NaN"
| "ToNumber fs JNull = Fin 0"
| "ToNumber fs (JBool b) = (if b then Fin 1 else Fin 0)"
| "ToNumber fs (JNum n) = n"
| "ToNumber fs (JStr s) = StringToNumber s"
| "ToNumber fs (JArr vs) = StringToNumber (string_of fs (JArr vs))"
| "ToNumber fs (JObj kvs) = StringToNumber (string_of fs (JObj kvs))"

text \<open>\<^verbatim>\<open>a <= b\<close> on numbers: false as soon as one side is NaN.\<close>

fun js_le :: "jsnum \<Rightarrow> jsnum \<Rightarrow> bool" where
  "js_le NaN b = False"
| "js_le a NaN = False"
| "js_le NegInf b = True"
| "js_le a PosInf = True"
| "js_le PosInf b = False"
| "js_le a NegInf = False"
| "js_le (Fin x) (Fin y) = (x \<le> y)"

section \<open>The report pipeline\<close>

text \<open>
  \<^verbatim>\<open>toNumber(x)\<close> of both report handlers. It has no handler of its own for the
  \<^verbatim>\<open>TypeError\<close> of \<^verbatim>\<open>String(x)\<close>.
\<close>

definition toNumber :: "(rat \<Rightarrow> string) \<Rightarrow> jsval \<Rightarrow> error + jsnum" where
  "toNumber fs x =
     (if x = JUndefined \<or> x = JNull \<or> x = JStr [] then Inr (Fin 0)
      else (case ToString fs x of
              Inl e \<Rightarrow> Inl e
            | Inr s \<Rightarrow>
                (let n = StringToNumber (filter (\<lambda>c. c \<noteq> comma \<and> c \<noteq> space) s)
                 in Inr (if isFinite n then n else Fin 0))))"

text \<open>The six fields of an output row.\<close>

record NormalizedRow =
  item :: jsval
  serial :: jsval
  expiration :: jsval
  qty :: jsval
  cost :: jsval
  bin :: jsval

text \<open>No field of the row is \<^verbatim>\<open>undefined\<close>.\<close>

definition row_defined :: "NormalizedRow \<Rightarrow> bool" where
  "row_defined row =
     (item row \<noteq> JUndefined \<and> serial row \<noteq> JUndefined \<and> expiration row \<noteq> JUndefined \<and>
      qty row \<noteq> JUndefined \<and> cost row \<noteq> JUndefined \<and> bin row \<noteq> JUndefined)"

text \<open>
  The row of one raw record \<open>r\<close>, as the \<^verbatim>\<open>rowsRaw.map\<close> callback builds it. Reading a
  property of \<^verbatim>\<open>null\<close> raises. \<^verbatim>\<open>a || b || c\<close> is \<^verbatim>\<open>(a || b) || c\<close>, a left fold of
  \<^const>\<open>js_or\<close>. The six constants are evaluated in the order of the source: \<^verbatim>\<open>qty\<close>,
  then \<^verbatim>\<open>cost\<close>, may raise in \<^const>\<open>toNumber\<close>, and then no row is built.
\<close>

definition normalizeRow :: "(rat \<Rightarrow> string) \<Rightarrow> jsval \<Rightarrow> error + NormalizedRow" where
  "normalizeRow fs r =
     (if nullish r then Inl TypeError
      else
        (case toNumber fs (foldl js_or (getprop r ''Qty'')
                [getprop r ''Quantity'', getprop r ''On Hand'', getprop r ''Qty On Hand'']) of
           Inl e \<Rightarrow> Inl e
         | Inr qn \<Rightarrow>
             (case toNumber fs (foldl js_or (getprop r ''Cost'')
                     [getprop r ''Avg Cost'', getprop r ''Unit Cost'']) of
                Inl e \<Rightarrow> Inl e
              | Inr cn \<Rightarrow> Inr \<lparr>
                  item = foldl js_or (getprop r ''Item'')
                    [getprop r ''SKU'', getprop r ''Item (SKU)'', getprop r ''Item Name'',
                     getprop r ''Product'', JStr []],
                  serial = foldl js_or (getprop r ''Lot/Serial'')
                    [getprop r ''LotSerial'', getprop r ''Serial'', getprop r ''IMEI'',
                     getprop r ''Lot / Serial'', JStr []],
                  expiration = foldl js_or (getprop r ''Expiration Date'')
                    [getprop r ''Expiry'', getprop r ''Expiration'', JStr []],
                  qty = JNum qn,
                  cost = JNum cn,
                  bin = foldl js_or (getprop r ''Bin'')
                    [getprop r ''Location'', getprop r ''Bin Location'', getprop r ''Loc'',
                     JStr []] \<rparr>)))"

text \<open>\<^verbatim>\<open>rowsRaw.map(...)\<close>: the first record that raises aborts the whole map.\<close>

fun normalizeRows :: "(rat \<Rightarrow> string) \<Rightarrow> jsval list \<Rightarrow> error + NormalizedRow list" where
  "normalizeRows fs [] = Inr []"
| "normalizeRows fs (r # rs) =
     (case normalizeRow fs r of
        Inl e \<Rightarrow> Inl e
      | Inr row \<Rightarrow>
          (case normalizeRows fs rs of
             Inl e \<Rightarrow> Inl e
           | Inr rows \<Rightarrow> Inr (row # rows)))"

text \<open>
  The rows of a fetched body. \<open>parsed\<close> is what \<^verbatim>\<open>JSON.parse(raw)\<close> returns (\<open>None\<close> when
  it raises); anything but an array falls back to the CSV parser, whose objects hold
  strings.
\<close>

definition csvObject :: "(string \<times> string) list \<Rightarrow> jsval" where
  "csvObject obj = JObj (map (\<lambda>(k, v). (k, JStr v)) obj)"

definition reportRows ::
  "(rat \<Rightarrow> string) \<Rightarrow> jsval option \<Rightarrow> string \<Rightarrow> error + NormalizedRow list" where
  "reportRows fs parsed raw =
     normalizeRows fs
       (case parsed of
          Some (JArr vs) \<Rightarrow> vs
        | _ \<Rightarrow> map csvObject (parseCsvToObjects raw))"

section \<open>The live pipeline: the list fetcher\<close>

record env =
  OT_BASE_URL :: string
  OT_API_KEY :: string
  OT_BASIC_USER :: "string option"
  OT_BASIC_PASS :: "string option"

text \<open>
  The options of a list call; \<open>None\<close> and \<^const>\<open>JUndefined\<close> stand for an option that is
  not given.
\<close>

record opts =
  page :: "nat option"
  pageSize :: "nat option"
  filters :: jsval
  sortation :: jsval

record list_body =
  Type :: string
  PageNumber :: nat
  NumberOfRecords :: nat
  Filters :: jsval
  Sortation :: jsval

text \<open>A request carries its body as the object that \<^verbatim>\<open>JSON.stringify\<close> serialises.\<close>

record request =
  url :: string
  headers :: "(string \<times> string) list"
  body :: list_body

text \<open>
  A response: its status, its body as text, and its body as JSON (\<open>None\<close> when the body
  is not JSON, so that \<^verbatim>\<open>res.json()\<close> rejects).
\<close>

record response =
  status :: nat
  body_text :: string
  body_json :: "jsval option"

datatype fetch_result = Failed string | Response response

text \<open>
  The endpoint answers a request knowing all the requests it has received before: the
  state threaded through the fetcher is the log of the requests sent so far.
\<close>

type_synonym server = "request list \<Rightarrow> request \<Rightarrow> fetch_result"

definition ok :: "response \<Rightarrow> bool" where
  "ok res = (200 \<le> status res \<and> status res \<le> 299)"

text \<open>\<^verbatim>\<open>Buffer.from(s).toString("base64")\<close>: the UTF-8 bytes of \<open>s\<close>, three at a time.\<close>

definition utf8 :: "string \<Rightarrow> nat list" where
  "utf8 s = concat (map (\<lambda>c. let n = (of_char c :: nat)
                             in if n < 128 then [n] else [192 + n div 64, 128 + n mod 64]) s)"

definition b64_sym :: "nat \<Rightarrow> char" where
  "b64_sym n = ''ABCDEFGHIJKLMNOPQRSTUVWXYZabcdefghijklmnopqrstuvwxyz0123456789+/'' ! n"

fun b64_groups :: "nat list \<Rightarrow> string" where
  "b64_groups (a # b # c # rest) =
     [b64_sym (a div 4), b64_sym ((a mod 4) * 16 + b div 16),
      b64_sym ((b mod 16) * 4 + c div 64), b64_sym (c mod 64)] @ b64_groups rest"
| "b64_groups [a, b] =
     [b64_sym (a div 4), b64_sym ((a mod 4) * 16 + b div 16), b64_sym ((b mod 16) * 4), CHR ''='']"
| "b64_groups [a] = [b64_sym (a div 4), b64_sym ((a mod 4) * 16), CHR ''='', CHR ''='']"
| "b64_groups [] = []"

definition base64 :: "string \<Rightarrow> string" where
  "base64 s = b64_groups (utf8 s)"

text \<open>
  The header sets \<^verbatim>\<open>tries\<close>, in the order of the array literal; the Basic scheme is pushed
  when both \<^verbatim>\<open>OT_BASIC_USER\<close> and \<^verbatim>\<open>OT_BASIC_PASS\<close> are set and not empty.
\<close>

definition tries :: "env \<Rightarrow> (string \<times> string) list list" where
  "tries e =
     [[(''Authorization'', ''Bearer '' @ OT_API_KEY e), (''Content-Type'', ''application/json'')],
      [(''ApiKey'', OT_API_KEY e), (''Content-Type'', ''application/json'')],
      [(''X-API-KEY'', OT_API_KEY e), (''Content-Type'', ''application/json'')],
      [(''x-api-key'', OT_API_KEY e), (''Content-Type'', ''application/json'')]] @
     (case (OT_BASIC_USER e, OT_BASIC_PASS e) of
        (Some u, Some p) \<Rightarrow>
          if u \<noteq> [] \<and> p \<noteq> [] then
            [[(''Authorization'', ''Basic '' @ base64 (u @ '':'' @ p)),
              (''Content-Type'', ''application/json'')]]
          else []
      | _ \<Rightarrow> [])"

text \<open>
  \<^verbatim>\<open>/incorrect api key|unauthorized|forbidden|invalid token/i.test(lastText)\<close>: one of
  the four phrases occurs in the text, letters compared without case.
\<close>

definition lower :: "char \<Rightarrow> char" where
  "lower c =
     (case map_of (zip ''ABCDEFGHIJKLMNOPQRSTUVWXYZ'' ''abcdefghijklmnopqrstuvwxyz'') c of
        None \<Rightarrow> c
      | Some l \<Rightarrow> l)"

fun has_infix :: "string \<Rightarrow> string \<Rightarrow> bool" where
  "has_infix p [] = (p = [])"
| "has_infix p (c # cs) = (prefix p (c # cs) \<or> has_infix p cs)"

definition auth_failure :: "string \<Rightarrow> bool" where
  "auth_failure t =
     (let l = map lower t
      in has_infix ''incorrect api key'' l \<or> has_infix ''unauthorized'' l \<or>
         has_infix ''forbidden'' l \<or> has_infix ''invalid token'' l)"

text \<open>
  The loop of \<^verbatim>\<open>otList\<close> over the header sets not yet tried. Every call is appended to
  the log. A call that does not complete, and a success whose body is not JSON, reject
  the promise; a failure whose body is no authentication failure raises with the status
  and the body; an authentication failure moves on to the next header set, and when none
  is left the last body is raised.
\<close>

fun otList_loop ::
  "server \<Rightarrow> string \<Rightarrow> list_body \<Rightarrow> (string \<times> string) list list \<Rightarrow> string \<Rightarrow>
   request list \<Rightarrow> (error + jsval) \<times> request list" where
  "otList_loop srv u b [] lastText lg = (Inl (AuthFailed (Type b) lastText), lg)"
| "otList_loop srv u b (h # hs) lastText lg =
     (let req = \<lparr> url = u, headers = h, body = b \<rparr>
      in case srv lg req of
           Failed m \<Rightarrow> (Inl (NetworkError m), lg @ [req])
         | Response res \<Rightarrow>
             if ok res then
               (case body_json res of
                  None \<Rightarrow> (Inl SyntaxError, lg @ [req])
                | Some d \<Rightarrow> (Inr d, lg @ [req]))
             else if \<not> auth_failure (body_text res) then
               (Inl (ListFailed (Type b) (status res) (body_text res)), lg @ [req])
             else otList_loop srv u b hs (body_text res) (lg @ [req]))"

text \<open>\<^verbatim>\<open>OT_BASE_URL.replace(/\/+$/,'')\<close> followed by \<^verbatim>\<open>/list\<close>.\<close>

definition list_url :: "env \<Rightarrow> string" where
  "list_url e = rev (dropWhile (\<lambda>c. c = CHR ''/'') (rev (OT_BASE_URL e))) @ ''/list''"

text \<open>\<^verbatim>\<open>opts.page || 1\<close> and \<^verbatim>\<open>opts.pageSize || 500\<close>: zero is falsy.\<close>

definition or_default :: "nat option \<Rightarrow> nat \<Rightarrow> nat" where
  "or_default v d = (case v of None \<Rightarrow> d | Some n \<Rightarrow> if n = 0 then d else n)"

definition list_request_body :: "string \<Rightarrow> opts \<Rightarrow> list_body" where
  "list_request_body ty os =
     \<lparr> Type = ty,
       PageNumber = or_default (page os) 1,
       NumberOfRecords = or_default (pageSize os) 500,
       Filters = js_or (filters os) (JArr []),
       Sortation = js_or (sortation os)
         (JObj [(''PropertyName'', JStr ''Id''), (''Direction'', JNum (Fin 1))]) \<rparr>"

definition otList ::
  "env \<Rightarrow> server \<Rightarrow> string \<Rightarrow> opts \<Rightarrow> request list \<Rightarrow> (error + jsval) \<times> request list" where
  "otList e srv ty os lg =
     otList_loop srv (list_url e) (list_request_body ty os) (tries e) [] lg"

text \<open>
  \<^verbatim>\<open>Array.isArray(data?.Records) ? data.Records : (Array.isArray(data) ? data : [])\<close>.
\<close>

definition page_records :: "jsval \<Rightarrow> jsval list" where
  "page_records d =
     (case optget d ''Records'' of
        JArr vs \<Rightarrow> vs
      | _ \<Rightarrow> (case d of JArr vs \<Rightarrow> vs | _ \<Rightarrow> []))"

text \<open>
  The loop of \<^verbatim>\<open>listAll\<close>, entered with the page to fetch and the records gathered so
  far. It leaves on a short page, and when the incremented page exceeds 200.
\<close>

function listAll_loop ::
  "env \<Rightarrow> server \<Rightarrow> string \<Rightarrow> opts \<Rightarrow> nat \<Rightarrow> jsval list \<Rightarrow> request list \<Rightarrow>
   (error + jsval list) \<times> request list" where
  "listAll_loop e srv ty os pg out lg =
     (case otList e srv ty (os\<lparr>page := Some pg\<rparr>) lg of
        (Inl err, lg') \<Rightarrow> (Inl err, lg')
      | (Inr d, lg') \<Rightarrow>
          (let arr = page_records d
           in if length arr < or_default (pageSize os) 500 then (Inr (out @ arr), lg')
              else if pg + 1 > 200 then (Inr (out @ arr), lg')
              else listAll_loop e srv ty os (pg + 1) (out @ arr) lg'))"
  by pat_completeness auto
termination
  by (relation "measure (\<lambda>(e, srv, ty, os, pg, out, lg). 201 - pg)") auto

definition listAll ::
  "env \<Rightarrow> server \<Rightarrow> string \<Rightarrow> opts \<Rightarrow> request list \<Rightarrow>
   (error + jsval list) \<times> request list" where
  "listAll e srv ty os lg = listAll_loop e srv ty os 1 [] lg"


subsection \<open>Runs of the list fetcher\<close>

text \<open>
  The requests that one call of \<^verbatim>\<open>otList\<close> can send, in the order of its header sets.
\<close>

definition list_requests :: "env \<Rightarrow> string \<Rightarrow> opts \<Rightarrow> request list" where
  "list_requests e ty os =
     map (\<lambda>h. \<lparr> url = list_url e, headers = h, body = list_request_body ty os \<rparr>) (tries e)"

text \<open>
  The requests of a list, sent one after the other from the log \<open>lg\<close>, are each answered
  with a failure whose body is an authentication failure.
\<close>

fun rejected :: "server \<Rightarrow> request list \<Rightarrow> request list \<Rightarrow> bool" where
  "rejected srv lg [] = True"
| "rejected srv lg (rq # rqs) =
     ((case srv lg rq of
         Failed m \<Rightarrow> False
       | Response res \<Rightarrow> \<not> ok res \<and> auth_failure (body_text res)) \<and>
      rejected srv (lg @ [rq]) rqs)"

text \<open>The body of the last answer to such requests; \<open>t\<close> when there is none.\<close>

fun last_text :: "server \<Rightarrow> request list \<Rightarrow> request list \<Rightarrow> string \<Rightarrow> string" where
  "last_text srv lg [] t = t"
| "last_text srv lg (rq # rqs) t =
     (case srv lg rq of
        Failed m \<Rightarrow> t
      | Response res \<Rightarrow> last_text srv (lg @ [rq]) rqs (body_text res))"

text \<open>
  A sequence of page results: \<^verbatim>\<open>otList\<close> called for the pages \<open>pg\<close>, \<open>pg + 1\<close>, ... one
  after the other from the log \<open>lg\<close> returns the payloads \<open>ds\<close>, and leaves the log that is
  returned.
\<close>

fun pages_from ::
  "env \<Rightarrow> server \<Rightarrow> string \<Rightarrow> opts \<Rightarrow> nat \<Rightarrow> jsval list \<Rightarrow> request list \<Rightarrow>
   request list option" where
  "pages_from e srv ty os pg [] lg = Some lg"
| "pages_from e srv ty os pg (d # ds) lg =
     (case otList e srv ty (os\<lparr>page := Some pg\<rparr>) lg of
        (Inl err, lg') \<Rightarrow> None
      | (Inr d', lg') \<Rightarrow> if d' = d then pages_from e srv ty os (Suc pg) ds lg' else None)"

section \<open>The live pipeline: the join\<close>

definition ITEM_COST_FIELDS :: "string list" where
  "ITEM_COST_FIELDS = [''LastPurchaseCost'', ''AverageCost'', ''StandardCost'']"

text \<open>
  \<^verbatim>\<open>firstCost(rec)\<close>: the loop over the candidate names returns at the first one whose
  value is neither \<^verbatim>\<open>undefined\<close> nor \<^verbatim>\<open>null\<close> (\<^verbatim>\<open>!= null\<close>), converted by \<^verbatim>\<open>Number\<close>.
\<close>

fun firstCost_loop :: "(rat \<Rightarrow> string) \<Rightarrow> jsval \<Rightarrow> string list \<Rightarrow> jsval" where
  "firstCost_loop fs rec [] = JNull"
| "firstCost_loop fs rec (k # ks) =
     (if truthy rec \<and> \<not> nullish (getprop rec k) then JNum (ToNumber fs (getprop rec k))
      else firstCost_loop fs rec ks)"

definition firstCost :: "(rat \<Rightarrow> string) \<Rightarrow> jsval \<Rightarrow> jsval" where
  "firstCost fs rec = firstCost_loop fs rec ITEM_COST_FIELDS"

text \<open>
  A \<^verbatim>\<open>Map\<close> compares keys by SameValueZero: primitives by value, objects and arrays by
  identity. The keys stored come from the entity records and the key looked up from a
  balance record, so an object or an array never meets itself.
\<close>

fun sameValueZero :: "jsval \<Rightarrow> jsval \<Rightarrow> bool" where
  "sameValueZero (JArr a) b = False"
| "sameValueZero (JObj a) b = False"
| "sameValueZero a b = (a = b)"

text \<open>
  \<^verbatim>\<open>new Map(xs.map(l => [l.Id, l]))\<close>: the entries in order, a later entry replacing an
  earlier one of the same key, so that \<^verbatim>\<open>get\<close> answers with the last one.
\<close>

fun idEntries :: "jsval list \<Rightarrow> error + (jsval \<times> jsval) list" where
  "idEntries [] = Inr []"
| "idEntries (l # ls) =
     (if nullish l then Inl TypeError
      else (case idEntries ls of
              Inl e \<Rightarrow> Inl e
            | Inr es \<Rightarrow> Inr ((getprop l ''Id'', l) # es)))"

definition map_get :: "(jsval \<times> jsval) list \<Rightarrow> jsval \<Rightarrow> jsval" where
  "map_get es k =
     (case filter (\<lambda>(k', v). sameValueZero k' k) es of
        [] \<Rightarrow> JUndefined
      | x # xs \<Rightarrow> snd (last (x # xs)))"

text \<open>\<^verbatim>\<open>byId.has(k)\<close>: whether the index holds the key.\<close>

definition has_key :: "(jsval \<times> jsval) list \<Rightarrow> jsval \<Rightarrow> bool" where
  "has_key es k = list_ex (\<lambda>(k', v). sameValueZero k' k) es"

text \<open>The query parameters, \<open>None\<close> for one that \<^verbatim>\<open>searchParams.get\<close> answers with \<^verbatim>\<open>null\<close>.\<close>

record query =
  location :: "string option"
  binPrefix :: "string option"
  qtygt :: "string option"

text \<open>\<^verbatim>\<open>Number(url.searchParams.get("qtygt") ?? "0")\<close>.\<close>

definition qtygt_of :: "query \<Rightarrow> jsnum" where
  "qtygt_of q = StringToNumber (case qtygt q of None \<Rightarrow> ''0'' | Some s \<Rightarrow> s)"

text \<open>\<^verbatim>\<open>Number(r.OnHand ?? r.Qty ?? 0)\<close>, for a record that is not \<^verbatim>\<open>null\<close>.\<close>

definition balance_qty :: "(rat \<Rightarrow> string) \<Rightarrow> jsval \<Rightarrow> jsnum" where
  "balance_qty fs r =
     ToNumber fs
       (js_coalesce (js_coalesce (getprop r ''OnHand'') (getprop r ''Qty'')) (JNum (Fin 0)))"

text \<open>
  A foreign key, \<^verbatim>\<open>r?.XRef?.Id ?? r?.XId\<close>, and its lookup,
  \<^verbatim>\<open>id ? byId.get(id) : null\<close>.
\<close>

definition ref_id :: "jsval \<Rightarrow> string \<Rightarrow> string \<Rightarrow> jsval" where
  "ref_id r refName idName = js_coalesce (optget (optget r refName) ''Id'') (optget r idName)"

definition lookup :: "(jsval \<times> jsval) list \<Rightarrow> jsval \<Rightarrow> jsval" where
  "lookup byId k = (if truthy k then map_get byId k else JNull)"

text \<open>The object literal \<^verbatim>\<open>row\<close>, from the quantity and the three joined entities.\<close>

definition mkRow :: "(rat \<Rightarrow> string) \<Rightarrow> jsnum \<Rightarrow> jsval \<Rightarrow> jsval \<Rightarrow> jsval \<Rightarrow> NormalizedRow" where
  "mkRow fs q lot itm bn =
     \<lparr> item = foldl js_or (optget itm ''Name'') [optget itm ''ItemName'', JStr []],
       serial = foldl js_or (optget lot ''LotOrSerialNumber'')
         [optget lot ''Serial'', optget lot ''IMEI'', JStr []],
       expiration = foldl js_or (optget lot ''ExpirationDate'') [optget lot ''Expiry'', JStr []],
       qty = JNum q,
       cost = firstCost fs itm,
       bin = js_or (optget bn ''Name'') (JStr []) \<rparr>"

text \<open>
  \<^verbatim>\<open>binPrefix && row.bin && !row.bin.startsWith(binPrefix)\<close>: whether the row is skipped.
  A truthy \<^verbatim>\<open>row.bin\<close> that is not a string has no \<^verbatim>\<open>startsWith\<close>, and calling it raises.
\<close>

definition binPrefix_skips :: "string option \<Rightarrow> jsval \<Rightarrow> error + bool" where
  "binPrefix_skips bp b =
     (case bp of
        None \<Rightarrow> Inr False
      | Some p \<Rightarrow>
          if p = [] then Inr False
          else if \<not> truthy b then Inr False
          else (case b of
                  JStr s \<Rightarrow> Inr (\<not> prefix p s)
                | _ \<Rightarrow> Inl TypeError))"

text \<open>
  \<^verbatim>\<open>location && r?.LocationRef?.Name && r.LocationRef.Name !== location\<close>.
\<close>

definition location_skips :: "string option \<Rightarrow> jsval \<Rightarrow> bool" where
  "location_skips loc r =
     (case loc of
        None \<Rightarrow> False
      | Some l \<Rightarrow>
          l \<noteq> [] \<and> truthy (optget (optget r ''LocationRef'') ''Name'') \<and>
          optget (optget r ''LocationRef'') ''Name'' \<noteq> JStr l)"

text \<open>
  The body of the row loop after the three lookups: the row is built, then dropped by a
  filter (\<open>None\<close>) or pushed.
\<close>

definition filterRow ::
  "(rat \<Rightarrow> string) \<Rightarrow> query \<Rightarrow> jsval \<Rightarrow> jsnum \<Rightarrow> jsval \<Rightarrow> jsval \<Rightarrow> jsval \<Rightarrow>
   error + NormalizedRow option" where
  "filterRow fs q r qy lot itm bn =
     (let row = mkRow fs qy lot itm bn
      in case binPrefix_skips (binPrefix q) (bin row) of
           Inl e \<Rightarrow> Inl e
         | Inr skip \<Rightarrow>
             if skip then Inr None
             else if location_skips (location q) r then Inr None
             else Inr (Some row))"

text \<open>
  One turn of the row loop for the balance record \<open>r\<close>: \<^verbatim>\<open>r.OnHand\<close> raises on
  \<^verbatim>\<open>null\<close>; \<^verbatim>\<open>if (qty <= qtygt) continue\<close>; the three foreign keys and lookups; the
  row and its filters.
\<close>

definition joinRow ::
  "(rat \<Rightarrow> string) \<Rightarrow> query \<Rightarrow> (jsval \<times> jsval) list \<Rightarrow> (jsval \<times> jsval) list \<Rightarrow>
   (jsval \<times> jsval) list \<Rightarrow> jsval \<Rightarrow> error + NormalizedRow option" where
  "joinRow fs q lotById itemById binById r =
     (if nullish r then Inl TypeError
      else if js_le (balance_qty fs r) (qtygt_of q) then Inr None
      else filterRow fs q r (balance_qty fs r)
             (lookup lotById (ref_id r ''LotOrSerialRef'' ''LotOrSerialId''))
             (lookup itemById (ref_id r ''ItemRef'' ''ItemId''))
             (lookup binById (ref_id r ''BinRef'' ''BinId'')))"

text \<open>The row loop: rows are pushed in order, and a record that raises aborts the loop.\<close>

fun liveRows ::
  "(rat \<Rightarrow> string) \<Rightarrow> query \<Rightarrow> (jsval \<times> jsval) list \<Rightarrow> (jsval \<times> jsval) list \<Rightarrow>
   (jsval \<times> jsval) list \<Rightarrow> jsval list \<Rightarrow> error + NormalizedRow list" where
  "liveRows fs q lotById itemById binById [] = Inr []"
| "liveRows fs q lotById itemById binById (r # rs) =
     (case joinRow fs q lotById itemById binById r of
        Inl e \<Rightarrow> Inl e
      | Inr ro \<Rightarrow>
          (case liveRows fs q lotById itemById binById rs of
             Inl e \<Rightarrow> Inl e
           | Inr rows \<Rightarrow> Inr (case ro of None \<Rightarrow> rows | Some row \<Rightarrow> row # rows)))"

text \<open>The handler from the four fetched collections on: the three indices, then the rows.\<close>

definition buildRows ::
  "(rat \<Rightarrow> string) \<Rightarrow> query \<Rightarrow> jsval list \<Rightarrow> jsval list \<Rightarrow> jsval list \<Rightarrow> jsval list \<Rightarrow>
   error + NormalizedRow list" where
  "buildRows fs q invBalances lots items bins =
     (case idEntries lots of
        Inl e \<Rightarrow> Inl e
      | Inr lotById \<Rightarrow>
          (case idEntries items of
             Inl e \<Rightarrow> Inl e
           | Inr itemById \<Rightarrow>
               (case idEntries bins of
                  Inl e \<Rightarrow> Inl e
                | Inr binById \<Rightarrow> liveRows fs q lotById itemById binById invBalances)))"


section \<open>Properties of the CSV parser\<close>

lemmas char_defs = dquote_def newline_def creturn_def comma_def space_def

lemmas csv_defs = parseCsvToObjects_def splitRecords_def normalizeEol_def replace_cr_def
  splitCsvLine_def strip_final_newline_def js_trim_def is_ws_def

lemma newline_neq_dquote [simp]: "newline \<noteq> dquote" "dquote \<noteq> newline"
  by (simp_all add: newline_def dquote_def)

lemma strip_final_newline_snoc [simp]: "strip_final_newline (b @ [newline]) = b"
  by (simp add: strip_final_newline_def)

text \<open>
  When the text does not end in a newline, the buffer left by the record loop is not
  empty. A last character that the loop skips is the second quote of a pair whose first
  quote has just been appended.
\<close>

lemma splitRecords_loop_trailing:
  "(xs = [] \<longrightarrow> buf \<noteq> []) \<Longrightarrow> (xs \<noteq> [] \<longrightarrow> last xs \<noteq> newline) \<Longrightarrow>
   fst (snd (splitRecords_loop xs recs buf inQ)) \<noteq> []"
proof (induction xs recs buf inQ rule: splitRecords_loop.induct)
  case (1 records buf inQ)
  then show ?case by simp
next
  case (2 ch rest records buf inQ)
  show ?case
  proof (cases rest)
    case Nil
    with "2.prems" show ?thesis by simp
  next
    case (Cons d rest')
    show ?thesis
    proof (cases "ch = dquote")
      case True
      show ?thesis
      proof (cases "d = dquote")
        case dq: True
        have "fst (snd (splitRecords_loop rest' records (buf @ [ch]) inQ)) \<noteq> []"
          using "2.IH"(2)[OF True Cons dq] "2.prems" Cons by (cases rest') auto
        then show ?thesis using True Cons dq by simp
      next
        case ndq: False
        have "fst (snd (splitRecords_loop rest records (buf @ [ch]) (\<not> inQ))) \<noteq> []"
          using "2.IH"(3)[OF True Cons ndq] "2.prems" Cons by auto
        then show ?thesis using True Cons ndq by simp
      qed
    next
      case False
      show ?thesis
      proof (cases "ch = newline \<and> \<not> inQ")
        case nl: True
        have "fst (snd (splitRecords_loop rest
                 (records @ [strip_final_newline (buf @ [ch])]) [] inQ)) \<noteq> []"
          using "2.IH"(4)[OF False nl] "2.prems" Cons by auto
        then show ?thesis using False nl by simp
      next
        case nnl: False
        have "fst (snd (splitRecords_loop rest records (buf @ [ch]) inQ)) \<noteq> []"
          using "2.IH"(5)[OF False nnl] "2.prems" Cons by auto
        then show ?thesis using False nnl by auto
      qed
    qed
  qed
qed

text \<open>
  One more newline at the end of the text closes the buffer as a record outside quotes,
  and joins the buffer inside quotes.
\<close>

lemma splitRecords_loop_snoc_newline:
  "splitRecords_loop (xs @ [newline]) recs buf inQ =
     (case splitRecords_loop xs recs buf inQ of
        (r, b, q) \<Rightarrow> if q then (r, b @ [newline], q) else (r @ [b], [], q))"
proof (induction xs recs buf inQ rule: splitRecords_loop.induct)
  case (1 records buf inQ)
  then show ?case by (simp add: strip_final_newline_def)
next
  case (2 ch rest records buf inQ)
  show ?case
  proof (cases rest)
    case Nil
    then show ?thesis by (simp add: strip_final_newline_def butlast_append)
  next
    case (Cons d rest')
    show ?thesis
    proof (cases "ch = dquote")
      case True
      show ?thesis
      proof (cases "d = dquote")
        case dq: True
        show ?thesis using "2.IH"(2)[OF True Cons dq] True Cons dq by simp
      next
        case ndq: False
        show ?thesis using "2.IH"(3)[OF True Cons ndq] True Cons ndq by simp
      qed
    next
      case False
      show ?thesis
      proof (cases "ch = newline \<and> \<not> inQ")
        case nl: True
        show ?thesis using "2.IH"(4)[OF False nl] False nl by simp
      next
        case nnl: False
        show ?thesis using "2.IH"(5)[OF False nnl] False nnl by auto
      qed
    qed
  qed
qed

lemma replace_crlf_last:
  "xs \<noteq> [] \<Longrightarrow> replace_crlf xs \<noteq> [] \<and> last (replace_crlf xs) = last xs"
  by (induction xs rule: replace_crlf.induct) auto

lemma replace_crlf_snoc_newline:
  "xs = [] \<or> last xs \<noteq> creturn \<Longrightarrow>
   replace_crlf (xs @ [newline]) = replace_crlf xs @ [newline]"
proof (induction xs rule: replace_crlf.induct)
  case (1 c d cs)
  then show ?case by (cases cs) auto
qed simp_all

lemma normalizeEol_trailing:
  assumes "s \<noteq> []" "last s \<noteq> newline" "last s \<noteq> creturn"
  shows "normalizeEol s \<noteq> [] \<and> last (normalizeEol s) \<noteq> newline \<and>
         normalizeEol (s @ [newline]) = normalizeEol s @ [newline]"
  using assms replace_crlf_last[of s] replace_crlf_snoc_newline[of s]
  by (simp add: normalizeEol_def replace_cr_def last_map newline_def creturn_def)

text \<open>
  A quoted field that spans two lines stays in one record, and its newline is part of the
  value.
\<close>

lemma quoted_newline_one_record:
  "splitRecords (''h'' @ [newline, dquote] @ ''a'' @ [newline] @ ''b'' @ [dquote, newline]) =
     [''h'', [dquote] @ ''a'' @ [newline] @ ''b'' @ [dquote]] \<and>
   parseCsvToObjects (''h'' @ [newline, dquote] @ ''a'' @ [newline] @ ''b'' @ [dquote, newline]) =
     [[(''h'', ''a'' @ [newline] @ ''b'')]]"
  by (simp add: csv_defs char_defs)

text \<open>
  Claim C4. The claim is that a doubled quote inside a quoted field decodes to one literal
  quote, so that the field text \<^verbatim>\<open>"a,""b"""\<close> parses to \<^verbatim>\<open>a,"b"\<close>. The line splitter
  alone does decode it so. The record splitter that runs before it skips the second quote
  of every pair without copying it, so the record that reaches the line splitter is
  \<^verbatim>\<open>"a,"b""\<close> and the parsed value is \<^verbatim>\<open>a,b\<close>: both quotes are lost.
\<close>

theorem parseCsv_doubled_quote_lost:
  "splitCsvLine ([dquote] @ ''a,'' @ [dquote, dquote] @ ''b'' @ [dquote, dquote, dquote]) =
     [''a,'' @ [dquote] @ ''b'' @ [dquote]] \<and>
   splitRecords
     (''h'' @ [newline, dquote] @ ''a,'' @ [dquote, dquote] @ ''b'' @
      [dquote, dquote, dquote, newline]) =
     [''h'', [dquote] @ ''a,'' @ [dquote] @ ''b'' @ [dquote, dquote]] \<and>
   parseCsvToObjects
     (''h'' @ [newline, dquote] @ ''a,'' @ [dquote, dquote] @ ''b'' @
      [dquote, dquote, dquote, newline]) =
     [[(''h'', ''a,b'')]]"
  by (simp add: csv_defs char_defs)

text \<open>
  Claim C9, as stated: the trailing buffer yields a record also when it is empty. It does
  not: after \<^verbatim>\<open>a\<close> and a newline the buffer is empty and the records are those of the
  loop, and the empty text has no record at all.
\<close>

theorem empty_trailing_buffer_counterexample:
  "splitRecords_loop (''a'' @ [newline]) [] [] False = ([''a''], [], False) \<and>
   splitRecords (''a'' @ [newline]) = [''a''] \<and>
   splitRecords [] = [] \<and>
   parseCsvToObjects [] = []"
  by (simp add: csv_defs char_defs)

text \<open>
  Claim C9, amended. For a text that is not empty and does not end in a newline, the
  buffer left by the record loop is not empty and is pushed as the last record; the text
  followed by a newline has as many records, and the same records when the text does not
  end inside quotes. When the buffer left by the loop is empty, no record is pushed for
  it. The line endings are normalised first: a text that ends neither in LF nor in CR
  still ends so afterwards, and a newline appended to it stays appended.
\<close>

theorem trailing_buffer_record:
  "(s \<noteq> [] \<and> last s \<noteq> newline \<longrightarrow>
      fst (snd (splitRecords_loop s [] [] False)) \<noteq> [] \<and>
      splitRecords s =
        fst (splitRecords_loop s [] [] False) @ [fst (snd (splitRecords_loop s [] [] False))] \<and>
      length (splitRecords (s @ [newline])) = length (splitRecords s) \<and>
      (\<not> snd (snd (splitRecords_loop s [] [] False)) \<longrightarrow>
         splitRecords (s @ [newline]) = splitRecords s)) \<and>
   (fst (snd (splitRecords_loop s [] [] False)) = [] \<longrightarrow>
      splitRecords s = fst (splitRecords_loop s [] [] False)) \<and>
   (s \<noteq> [] \<and> last s \<noteq> newline \<and> last s \<noteq> creturn \<longrightarrow>
      normalizeEol s \<noteq> [] \<and> last (normalizeEol s) \<noteq> newline \<and>
      normalizeEol (s @ [newline]) = normalizeEol s @ [newline])"
proof -
  obtain r b q where loop: "splitRecords_loop s [] [] False = (r, b, q)"
    by (cases "splitRecords_loop s [] [] False") auto
  have trailing: "b \<noteq> []" if "s \<noteq> []" "last s \<noteq> newline"
    using splitRecords_loop_trailing[of s "[]" "[]" False] that loop by simp
  have snoc: "splitRecords_loop (s @ [newline]) [] [] False =
      (if q then (r, b @ [newline], q) else (r @ [b], [], q))"
    using splitRecords_loop_snoc_newline[of s "[]" "[]" False] loop by simp
  show ?thesis
    using trailing snoc loop normalizeEol_trailing[of s]
    by (auto simp: splitRecords_def)
qed

theorem trailing_buffer_record_witness:
  "splitRecords (''h'' @ [newline] @ ''x'') = [''h''] @ [''x''] \<and>
   length (splitRecords ((''h'' @ [newline] @ ''x'') @ [newline])) = 2 \<and>
   splitRecords ((''h'' @ [newline] @ ''x'') @ [newline]) = [''h'', ''x''] \<and>
   splitRecords (''h'' @ [newline]) = [''h''] \<and>
   normalizeEol ((''h'' @ [newline] @ ''x'') @ [newline]) = ''h'' @ [newline] @ ''x'' @ [newline]"
  using trailing_buffer_record[of "''h'' @ [newline] @ ''x''"]
    trailing_buffer_record[of "''h'' @ [newline]"]
  by (simp add: csv_defs char_defs)

section \<open>Properties of the numeric coercion\<close>

lemmas num_defs = StringToNumber_def js_trim_def is_ws_def non_decimal_def str_decimal_def
  take_sign_def unsigned_decimal_def digit_in_def exponent_part_def digits_val_def pow10_def
  round_number_def

lemma StringToNumber_Nil [simp]: "StringToNumber [] = Fin 0"
  by (simp add: StringToNumber_def js_trim_def)

lemma toNumber_parse:
  "toNumber fs x =
     (if x = JUndefined \<or> x = JNull then Inr (Fin 0)
      else if string_raises x then Inl TypeError
      else if isFinite (StringToNumber (filter (\<lambda>c. c \<noteq> comma \<and> c \<noteq> space) (string_of fs x)))
      then Inr (StringToNumber (filter (\<lambda>c. c \<noteq> comma \<and> c \<noteq> space) (string_of fs x)))
      else Inr (Fin 0))"
  by (simp add: toNumber_def ToString_def Let_def isFinite_def)

lemma toNumber_finite: "toNumber fs x = Inr n \<Longrightarrow> isFinite n"
  by (auto simp: toNumber_parse isFinite_def split: if_splits)

lemma toNumber_raises: "toNumber fs x = Inl e \<Longrightarrow> e = TypeError \<and> string_raises x"
  by (auto simp: toNumber_parse split: if_splits)

lemma toNumber_returns: "\<not> string_raises x \<Longrightarrow> \<exists>m. toNumber fs x = Inr m \<and> isFinite m"
  by (auto simp: toNumber_parse isFinite_def)

lemma string_raises_object: "string_raises (JObj kvs) = (''toString'' \<in> fst ` set kvs)"
  by (simp add: map_of_eq_None_iff)

lemma toNumber_examples:
  "toNumber fs (JStr ''1,234'') = Inr (Fin 1234)"
  "toNumber fs (JStr ''abc'') = Inr (Fin 0)"
  "toNumber fs (JStr ''1e400'') = Inr (Fin 0)"
  "toNumber fs (JStr ''Infinity'') = Inr (Fin 0)"
  "toNumber fs (JStr '' 12 345.5 '') = Inr (Fin (24691 / 2))"
  by (simp_all add: toNumber_parse comma_def space_def isFinite_def num_defs)

lemma toNumber_other_examples:
  "toNumber fs (JBool True) = Inr (Fin 0)"
  "toNumber fs (JNum (Fin 1234)) = Inr (Fin 1234)"
  "toNumber fs (JNum (Fin (- 7))) = Inr (Fin (- 7))"
  "toNumber fs (JNum NaN) = Inr (Fin 0)"
  "toNumber fs (JNum PosInf) = Inr (Fin 0)"
  "toNumber fs (JArr [JNum (Fin 1), JNum (Fin 2)]) = Inr (Fin 12)"
  "toNumber fs (JObj []) = Inr (Fin 0)"
  by (simp_all add: toNumber_parse finite_string_def comma_def space_def isFinite_def num_defs)

text \<open>
  Claim C5, as stated: \<^verbatim>\<open>toNumber\<close> never raises. It raises the \<^verbatim>\<open>TypeError\<close> of
  \<^verbatim>\<open>String(x)\<close> on an object with an own property \<^verbatim>\<open>toString\<close>, and the report body
  \<^verbatim>\<open>[{"Qty": {"toString": 1}}]\<close> brings such an object to it: the record gives no row and
  the whole \<^verbatim>\<open>map\<close> fails.
\<close>

theorem toNumber_raises_counterexample:
  "toNumber (\<lambda>q. []) (JObj [(''toString'', JNum (Fin 1))]) = Inl TypeError \<and>
   normalizeRow (\<lambda>q. []) (JObj [(''Qty'', JObj [(''toString'', JNum (Fin 1))])]) = Inl TypeError \<and>
   reportRows (\<lambda>q. []) (Some (JArr [JObj [(''Qty'', JObj [(''toString'', JNum (Fin 1))])]])) [] =
     Inl TypeError"
  by (simp add: reportRows_def normalizeRow_def toNumber_def ToString_def nullish_def js_or_def)

text \<open>
  Claim C5, amended. \<^verbatim>\<open>toNumber\<close> is 0 on \<^verbatim>\<open>undefined\<close>, \<^verbatim>\<open>null\<close> and the empty string.
  On any other input it raises the \<^verbatim>\<open>TypeError\<close> of \<^verbatim>\<open>String(x)\<close> when \<^verbatim>\<open>x\<close> is an object
  with an own property \<^verbatim>\<open>toString\<close> or an array that holds one, and otherwise returns the
  number parsed from the string of \<^verbatim>\<open>x\<close> without its commas and spaces when that number
  is finite, and 0 when it is not. So a value it returns is always finite, and it raises
  on no string, number, boolean, \<^verbatim>\<open>null\<close> or \<^verbatim>\<open>undefined\<close>, nor on an object or array
  without such a property. Commas and spaces in a string input do not change the result.
  \<^verbatim>\<open>toNumber("1,234")\<close> is 1234 and \<^verbatim>\<open>toNumber("abc")\<close> is 0; \<^verbatim>\<open>toNumber(true)\<close> is 0,
  \<^verbatim>\<open>toNumber(1234)\<close> is 1234, \<^verbatim>\<open>toNumber(-7)\<close> is -7, \<^verbatim>\<open>toNumber(NaN)\<close> and
  \<^verbatim>\<open>toNumber(Infinity)\<close> are 0, \<^verbatim>\<open>toNumber([1, 2])\<close> is 12 and \<^verbatim>\<open>toNumber({})\<close> is 0.
\<close>

theorem toNumber_coercion:
  "toNumber fs JUndefined = Inr (Fin 0) \<and>
   toNumber fs JNull = Inr (Fin 0) \<and>
   toNumber fs (JStr []) = Inr (Fin 0) \<and>
   toNumber fs x =
     (if x = JUndefined \<or> x = JNull then Inr (Fin 0)
      else if string_raises x then Inl TypeError
      else if isFinite (StringToNumber (filter (\<lambda>c. c \<noteq> comma \<and> c \<noteq> space) (string_of fs x)))
      then Inr (StringToNumber (filter (\<lambda>c. c \<noteq> comma \<and> c \<noteq> space) (string_of fs x)))
      else Inr (Fin 0)) \<and>
   (toNumber fs x = Inr n \<longrightarrow> isFinite n) \<and>
   (toNumber fs x = Inl e \<longrightarrow> e = TypeError \<and> string_raises x) \<and>
   (\<not> string_raises x \<longrightarrow> (\<exists>m. toNumber fs x = Inr m \<and> isFinite m)) \<and>
   \<not> string_raises JUndefined \<and> \<not> string_raises JNull \<and> \<not> string_raises (JBool b) \<and>
   \<not> string_raises (JNum m) \<and> \<not> string_raises (JStr s) \<and>
   string_raises (JObj kvs) = (''toString'' \<in> fst ` set kvs) \<and>
   string_raises (JArr vs) = (\<exists>v\<in>set vs. string_raises v) \<and>
   toNumber fs (JStr s) =
     Inr (if isFinite (StringToNumber (filter (\<lambda>c. c \<noteq> comma \<and> c \<noteq> space) s))
          then StringToNumber (filter (\<lambda>c. c \<noteq> comma \<and> c \<noteq> space) s) else Fin 0) \<and>
   toNumber fs (JStr (filter (\<lambda>c. c \<noteq> comma \<and> c \<noteq> space) s)) = toNumber fs (JStr s) \<and>
   toNumber fs (JStr ''1,234'') = Inr (Fin 1234) \<and>
   toNumber fs (JStr ''abc'') = Inr (Fin 0) \<and>
   toNumber fs (JBool True) = Inr (Fin 0) \<and>
   toNumber fs (JNum (Fin 1234)) = Inr (Fin 1234) \<and>
   toNumber fs (JNum (Fin (- 7))) = Inr (Fin (- 7)) \<and>
   toNumber fs (JNum NaN) = Inr (Fin 0) \<and>
   toNumber fs (JNum PosInf) = Inr (Fin 0) \<and>
   toNumber fs (JArr [JNum (Fin 1), JNum (Fin 2)]) = Inr (Fin 12) \<and>
   toNumber fs (JObj []) = Inr (Fin 0)"
proof -
  have 1: "toNumber fs JUndefined = Inr (Fin 0)" "toNumber fs JNull = Inr (Fin 0)"
    "toNumber fs (JStr []) = Inr (Fin 0)"
    by (simp_all add: toNumber_def)
  have 2: "toNumber fs x = Inr n \<longrightarrow> isFinite n"
    using toNumber_finite by blast
  have 3: "toNumber fs x = Inl e \<longrightarrow> e = TypeError \<and> string_raises x"
    using toNumber_raises by blast
  have 4: "\<not> string_raises x \<longrightarrow> (\<exists>m. toNumber fs x = Inr m \<and> isFinite m)"
    using toNumber_returns by blast
  have 5: "\<not> string_raises JUndefined" "\<not> string_raises JNull" "\<not> string_raises (JBool b)"
    "\<not> string_raises (JNum m)" "\<not> string_raises (JStr s)"
    "string_raises (JArr vs) = (\<exists>v\<in>set vs. string_raises v)"
    by simp_all
  have 6: "toNumber fs (JStr s) =
     Inr (if isFinite (StringToNumber (filter (\<lambda>c. c \<noteq> comma \<and> c \<noteq> space) s))
          then StringToNumber (filter (\<lambda>c. c \<noteq> comma \<and> c \<noteq> space) s) else Fin 0)"
    by (simp add: toNumber_parse)
  have 7: "toNumber fs (JStr (filter (\<lambda>c. c \<noteq> comma \<and> c \<noteq> space) s)) = toNumber fs (JStr s)"
    by (simp add: toNumber_parse)
  show ?thesis
    using 1 2 3 4 5 6 7
    by (intro conjI toNumber_parse string_raises_object toNumber_examples(1,2)
        toNumber_other_examples)
qed

theorem toNumber_coercion_witness:
  "toNumber (\<lambda>q. []) (JStr ''1e400'') = Inr (Fin 0) \<and>
   isFinite (Fin 0) \<and>
   \<not> string_raises (JStr ''1e400'') \<and>
   toNumber (\<lambda>q. []) (JStr ''1 234'') = Inr (Fin 1234) \<and>
   toNumber (\<lambda>q. []) (JArr [JNum (Fin 3), JObj [(''toString'', JNull)]]) = Inl TypeError \<and>
   string_raises (JArr [JNum (Fin 3), JObj [(''toString'', JNull)]])"
  using toNumber_coercion[where fs = "\<lambda>q. []" and x = "JStr ''1e400''" and s = "''1 234''"
      and n = "Fin 0" and e = TypeError and b = True and m = NaN and kvs = "[]" and vs = "[]"]
    toNumber_coercion[where fs = "\<lambda>q. []"
      and x = "JArr [JNum (Fin 3), JObj [(''toString'', JNull)]]" and s = "[]"
      and n = "Fin 0" and e = TypeError and b = True and m = NaN
      and kvs = "[(''toString'', JNull)]" and vs = "[JNum (Fin 3), JObj [(''toString'', JNull)]]"]
  by (simp add: toNumber_parse comma_def space_def isFinite_def num_defs)


section \<open>Properties of the row builders\<close>

lemma getprop_falsy: "\<not> truthy v \<Longrightarrow> getprop v k = JUndefined"
  by (cases v) auto


lemma optget_nullish [simp]: "nullish v \<Longrightarrow> optget v k = JUndefined"
  by (simp add: optget_def)

lemma optget_empty_object [simp]: "optget (JObj []) k = JUndefined"
  by (simp add: optget_def nullish_def)

lemma truthy_not_nullish: "truthy v \<Longrightarrow> \<not> nullish v"
  by (auto simp: nullish_def)

lemma or_chain:
  "foldl js_or a bs = (case List.find truthy (a # bs) of None \<Rightarrow> last (a # bs) | Some v \<Rightarrow> v)"
  by (induction bs arbitrary: a) (auto simp: js_or_def split: option.splits)

lemma or_chain_default_defined: "foldl js_or a (bs @ [JStr []]) \<noteq> JUndefined"
proof (cases "List.find truthy (a # bs @ [JStr []])")
  case None
  then show ?thesis by (simp add: or_chain del: foldl_append)
next
  case (Some v)
  then have "truthy v" by (metis find_Some_iff)
  then have "v \<noteq> JUndefined" by auto
  with Some show ?thesis by (simp add: or_chain del: foldl_append)
qed

lemma or_chain_default_empty:
  "\<forall>v\<in>set (a # bs). \<not> truthy v \<Longrightarrow> foldl js_or a (bs @ [JStr []]) = JStr []"
proof -
  assume "\<forall>v\<in>set (a # bs). \<not> truthy v"
  then have "List.find truthy (a # bs @ [JStr []]) = None"
    by (auto simp: find_None_iff)
  then show ?thesis by (simp add: or_chain del: foldl_append)
qed

lemma or_chain_falsy:
  "\<forall>v\<in>set (a # bs). \<not> truthy v \<Longrightarrow> \<not> truthy (foldl js_or a bs)"
proof -
  assume h: "\<forall>v\<in>set (a # bs). \<not> truthy v"
  then have "List.find truthy (a # bs) = None"
    by (auto simp: find_None_iff)
  then have "foldl js_or a bs = last (a # bs)" by (simp add: or_chain)
  moreover have "last (a # bs) \<in> set (a # bs)" by (rule last_in_set) simp
  ultimately show ?thesis using h by metis
qed

lemma toNumber_falsy: "\<not> truthy v \<Longrightarrow> toNumber fs v = Inr (Fin 0)"
proof (cases v)
  case (JNum n)
  assume "\<not> truthy v"
  with JNum show ?thesis
    by (cases n) (simp_all add: toNumber_parse finite_string_def comma_def space_def isFinite_def num_defs)
next
  case (JBool b)
  assume "\<not> truthy v"
  with JBool show ?thesis
    by (simp add: toNumber_parse comma_def space_def isFinite_def num_defs)
qed (auto simp: toNumber_def)

lemma firstCost_falsy: "\<not> truthy itm \<Longrightarrow> firstCost fs itm = JNull"
  by (simp add: firstCost_def ITEM_COST_FIELDS_def)

lemma firstCost_order:
  "firstCost fs itm =
     (if \<not> nullish (getprop itm ''LastPurchaseCost'') then
        JNum (ToNumber fs (getprop itm ''LastPurchaseCost''))
      else if \<not> nullish (getprop itm ''AverageCost'') then
        JNum (ToNumber fs (getprop itm ''AverageCost''))
      else if \<not> nullish (getprop itm ''StandardCost'') then
        JNum (ToNumber fs (getprop itm ''StandardCost''))
      else JNull)"
proof (cases "truthy itm")
  case True
  then show ?thesis by (simp add: firstCost_def ITEM_COST_FIELDS_def)
next
  case False
  then show ?thesis by (simp add: firstCost_falsy getprop_falsy nullish_def)
qed

lemma firstCost_defined: "firstCost fs itm = JNull \<or> (\<exists>c. firstCost fs itm = JNum c)"
  by (simp add: firstCost_order)

lemma joinRow_Some:
  "joinRow fs q lotById itemById binById r = Inr (Some row) \<Longrightarrow>
   \<not> nullish r \<and> \<not> js_le (balance_qty fs r) (qtygt_of q) \<and>
   row = mkRow fs (balance_qty fs r)
           (lookup lotById (ref_id r ''LotOrSerialRef'' ''LotOrSerialId''))
           (lookup itemById (ref_id r ''ItemRef'' ''ItemId''))
           (lookup binById (ref_id r ''BinRef'' ''BinId''))"
  by (auto simp: joinRow_def filterRow_def Let_def split: if_splits sum.splits)

lemma liveRows_rows:
  "liveRows fs q lotById itemById binById rs = Inr rows \<Longrightarrow> row \<in> set rows \<Longrightarrow>
   \<exists>r\<in>set rs. joinRow fs q lotById itemById binById r = Inr (Some row)"
proof (induction rs arbitrary: rows)
  case Nil
  then show ?case by simp
next
  case (Cons r rs)
  then show ?case
    by (auto split: sum.splits option.splits)
qed

lemma normalizeRows_rows:
  "normalizeRows fs rs = Inr rows \<Longrightarrow> row \<in> set rows \<Longrightarrow>
   \<exists>r\<in>set rs. normalizeRow fs r = Inr row"
proof (induction rs arbitrary: rows)
  case Nil
  then show ?case by simp
next
  case (Cons r rs)
  then show ?case
    by (auto split: sum.splits)
qed

lemma not_has_key: "\<not> has_key es k \<Longrightarrow> map_get es k = JUndefined"
proof -
  assume "\<not> has_key es k"
  then have "filter (\<lambda>(k', v). sameValueZero k' k) es = []"
    by (auto simp: has_key_def list_ex_iff filter_empty_conv)
  then show ?thesis by (simp add: map_get_def)
qed

lemma lookup_absent: "\<not> has_key es k \<Longrightarrow> nullish (lookup es k)"
  by (simp add: lookup_def not_has_key nullish_def)





lemma binPrefix_skips_empty [simp]: "binPrefix_skips bp (JStr []) = Inr False"
  by (simp add: binPrefix_skips_def split: option.splits)








section \<open>Properties of the live filters\<close>

lemmas live_defs = joinRow_def filterRow_def mkRow_def lookup_def map_get_def ref_id_def
  optget_def nullish_def js_coalesce_def js_or_def balance_qty_def qtygt_of_def
  binPrefix_skips_def location_skips_def firstCost_def ITEM_COST_FIELDS_def has_key_def








lemma binPrefix_skips_True_iff:
  "binPrefix_skips bp b = Inr True \<longleftrightarrow>
     (\<exists>p s. bp = Some p \<and> p \<noteq> [] \<and> b = JStr s \<and> s \<noteq> [] \<and> \<not> prefix p s)"
proof (cases bp)
  case None
  then show ?thesis by (simp add: binPrefix_skips_def)
next
  case (Some p)
  show ?thesis
  proof (cases b)
    case (JStr s)
    with Some show ?thesis by (simp add: binPrefix_skips_def)
  qed (simp_all add: Some binPrefix_skips_def)
qed

lemma qtygt_of_binPrefix [simp]: "qtygt_of (q\<lparr>binPrefix := bp\<rparr>) = qtygt_of q"
  by (simp add: qtygt_of_def)

lemma binPrefix_skips_None [simp]: "binPrefix_skips None b = Inr False"
  by (simp add: binPrefix_skips_def)

lemma filterRow_empty_bin:
  "bin (mkRow fs qy lot itm bn) = JStr [] \<Longrightarrow>
   filterRow fs q r qy lot itm bn = filterRow fs (q\<lparr>binPrefix := None\<rparr>) r qy lot itm bn"
  by (simp add: filterRow_def Let_def)

lemma lookup_falsy_key: "\<not> truthy k \<Longrightarrow> nullish (lookup byId k)"
  by (simp add: lookup_def nullish_def)

lemma joinRow_bin_unresolved:
  assumes "\<not> truthy (ref_id r ''BinRef'' ''BinId'') \<or>
           \<not> has_key binById (ref_id r ''BinRef'' ''BinId'')"
  shows "joinRow fs q lotById itemById binById r =
         joinRow fs (q\<lparr>binPrefix := None\<rparr>) lotById itemById binById r"
proof -
  have "nullish (lookup binById (ref_id r ''BinRef'' ''BinId''))"
    using assms lookup_falsy_key lookup_absent by blast
  then have "bin (mkRow fs (balance_qty fs r)
      (lookup lotById (ref_id r ''LotOrSerialRef'' ''LotOrSerialId''))
      (lookup itemById (ref_id r ''ItemRef'' ''ItemId''))
      (lookup binById (ref_id r ''BinRef'' ''BinId''))) = JStr []"
    by (simp add: mkRow_def js_or_def)
  from filterRow_empty_bin[OF this] show ?thesis
    by (simp add: joinRow_def)
qed


text \<open>
  Claim C10. The prefix filter never drops a row whose bin name is the empty string: it
  drops a row exactly when \<^verbatim>\<open>binPrefix\<close> is set and not empty and the bin name is a
  non-empty string that does not start with it. A row with an empty bin name goes
  through the filters as if \<^verbatim>\<open>binPrefix\<close> were not set; the bin name is empty when the
  bin is missing, which it is when the balance has no bin key or the index does not hold
  the key, and then the whole turn of the row loop is as without \<^verbatim>\<open>binPrefix\<close>.
\<close>

theorem binPrefix_keeps_empty_bin:
  "binPrefix_skips bp (JStr []) = Inr False \<and>
   (binPrefix_skips bp b = Inr True \<longleftrightarrow>
      (\<exists>p s. bp = Some p \<and> p \<noteq> [] \<and> b = JStr s \<and> s \<noteq> [] \<and> \<not> prefix p s)) \<and>
   (bin (mkRow fs qy lot itm bn) = JStr [] \<longrightarrow>
      filterRow fs q r qy lot itm bn = filterRow fs (q\<lparr>binPrefix := None\<rparr>) r qy lot itm bn) \<and>
   (nullish bn \<longrightarrow> bin (mkRow fs qy lot itm bn) = JStr []) \<and>
   (\<not> truthy k \<or> \<not> has_key binById k \<longrightarrow> nullish (lookup binById k)) \<and>
   (\<not> truthy (ref_id r ''BinRef'' ''BinId'') \<or>
    \<not> has_key binById (ref_id r ''BinRef'' ''BinId'') \<longrightarrow>
      joinRow fs q lotById itemById binById r =
      joinRow fs (q\<lparr>binPrefix := None\<rparr>) lotById itemById binById r)"
proof -
  have 1: "binPrefix_skips bp (JStr []) = Inr False"
    by simp
  have 2: "binPrefix_skips bp b = Inr True \<longleftrightarrow>
      (\<exists>p s. bp = Some p \<and> p \<noteq> [] \<and> b = JStr s \<and> s \<noteq> [] \<and> \<not> prefix p s)"
    by (rule binPrefix_skips_True_iff)
  have 3: "bin (mkRow fs qy lot itm bn) = JStr [] \<longrightarrow>
      filterRow fs q r qy lot itm bn = filterRow fs (q\<lparr>binPrefix := None\<rparr>) r qy lot itm bn"
    by (rule impI) (rule filterRow_empty_bin)
  have 4: "nullish bn \<longrightarrow> bin (mkRow fs qy lot itm bn) = JStr []"
    by (simp add: mkRow_def js_or_def)
  have 5: "\<not> truthy k \<or> \<not> has_key binById k \<longrightarrow> nullish (lookup binById k)"
    using lookup_falsy_key lookup_absent by blast
  have 6: "\<not> truthy (ref_id r ''BinRef'' ''BinId'') \<or>
    \<not> has_key binById (ref_id r ''BinRef'' ''BinId'') \<longrightarrow>
      joinRow fs q lotById itemById binById r =
      joinRow fs (q\<lparr>binPrefix := None\<rparr>) lotById itemById binById r"
    by (rule impI) (rule joinRow_bin_unresolved)
  show ?thesis
    by (intro conjI 1 2 3 4 5 6)
qed

theorem binPrefix_keeps_empty_bin_witness:
  "joinRow (\<lambda>q. []) \<lparr> location = None, binPrefix = Some ''C-05'', qtygt = None \<rparr> [] []
     [(JNum (Fin 1), JObj [(''Id'', JNum (Fin 1)), (''Name'', JStr ''C-05-A'')]),
      (JNum (Fin 2), JObj [(''Id'', JNum (Fin 2)), (''Name'', JStr ''D-01'')])]
     (JObj [(''OnHand'', JNum (Fin 4)), (''BinId'', JNum (Fin 9))]) =
     Inr (Some \<lparr> item = JStr [], serial = JStr [], expiration = JStr [], qty = JNum (Fin 4),
                 cost = JNull, bin = JStr [] \<rparr>) \<and>
   joinRow (\<lambda>q. []) \<lparr> location = None, binPrefix = Some ''C-05'', qtygt = None \<rparr> [] []
     [(JNum (Fin 1), JObj [(''Id'', JNum (Fin 1)), (''Name'', JStr ''C-05-A'')]),
      (JNum (Fin 2), JObj [(''Id'', JNum (Fin 2)), (''Name'', JStr ''D-01'')])]
     (JObj [(''OnHand'', JNum (Fin 4)), (''BinId'', JNum (Fin 2))]) = Inr None \<and>
   binPrefix_skips (Some ''C-05'') (JStr ''D-01'') = Inr True \<and>
   binPrefix_skips (Some ''C-05'') (JStr ''C-05-A'') = Inr False"
  using binPrefix_keeps_empty_bin[of "Some ''C-05''" "JStr ''D-01''" "\<lambda>q. []" "Fin 4" JNull
      JNull JUndefined "\<lparr> location = None, binPrefix = Some ''C-05'', qtygt = None \<rparr>"
      "JObj [(''OnHand'', JNum (Fin 4)), (''BinId'', JNum (Fin 9))]" "JNum (Fin 9)"
      "[(JNum (Fin 1), JObj [(''Id'', JNum (Fin 1)), (''Name'', JStr ''C-05-A'')]),
        (JNum (Fin 2), JObj [(''Id'', JNum (Fin 2)), (''Name'', JStr ''D-01'')])]" "[]" "[]"]
  by (simp add: live_defs num_defs)





section \<open>Properties of the output rows\<close>

lemma or_default_defined:
  "js_or a (JStr []) \<noteq> JUndefined"
  "js_or (js_or a b) (JStr []) \<noteq> JUndefined"
  "js_or (js_or (js_or a b) c) (JStr []) \<noteq> JUndefined"
  "js_or (js_or (js_or (js_or a b) c) d) (JStr []) \<noteq> JUndefined"
  "js_or (js_or (js_or (js_or (js_or a b) c) d) e) (JStr []) \<noteq> JUndefined"
  using or_chain_default_defined[of a "[]"] or_chain_default_defined[of a "[b]"]
    or_chain_default_defined[of a "[b, c]"] or_chain_default_defined[of a "[b, c, d]"]
    or_chain_default_defined[of a "[b, c, d, e]"]
  by simp_all

lemma normalizeRow_fields:
  assumes "normalizeRow fs r = Inr row"
  shows "\<exists>qn cn.
    toNumber fs (foldl js_or (getprop r ''Qty'')
      [getprop r ''Quantity'', getprop r ''On Hand'', getprop r ''Qty On Hand'']) = Inr qn \<and>
    toNumber fs (foldl js_or (getprop r ''Cost'')
      [getprop r ''Avg Cost'', getprop r ''Unit Cost'']) = Inr cn \<and>
    qty row = JNum qn \<and> cost row = JNum cn \<and>
    item row = foldl js_or (getprop r ''Item'')
      [getprop r ''SKU'', getprop r ''Item (SKU)'', getprop r ''Item Name'',
       getprop r ''Product'', JStr []] \<and>
    serial row = foldl js_or (getprop r ''Lot/Serial'')
      [getprop r ''LotSerial'', getprop r ''Serial'', getprop r ''IMEI'',
       getprop r ''Lot / Serial'', JStr []] \<and>
    expiration row = foldl js_or (getprop r ''Expiration Date'')
      [getprop r ''Expiry'', getprop r ''Expiration'', JStr []] \<and>
    bin row = foldl js_or (getprop r ''Bin'')
      [getprop r ''Location'', getprop r ''Bin Location'', getprop r ''Loc'', JStr []]"
proof (cases "toNumber fs (foldl js_or (getprop r ''Qty'')
      [getprop r ''Quantity'', getprop r ''On Hand'', getprop r ''Qty On Hand''])")
  case (Inl e)
  with assms show ?thesis by (simp add: normalizeRow_def split: if_splits)
next
  case qn: (Inr qn)
  show ?thesis
  proof (cases "toNumber fs (foldl js_or (getprop r ''Cost'')
      [getprop r ''Avg Cost'', getprop r ''Unit Cost''])")
    case (Inl e)
    with assms qn show ?thesis by (simp add: normalizeRow_def split: if_splits)
  next
    case (Inr cn)
    with assms qn have "row = \<lparr>
        item = foldl js_or (getprop r ''Item'')
          [getprop r ''SKU'', getprop r ''Item (SKU)'', getprop r ''Item Name'',
           getprop r ''Product'', JStr []],
        serial = foldl js_or (getprop r ''Lot/Serial'')
          [getprop r ''LotSerial'', getprop r ''Serial'', getprop r ''IMEI'',
           getprop r ''Lot / Serial'', JStr []],
        expiration = foldl js_or (getprop r ''Expiration Date'')
          [getprop r ''Expiry'', getprop r ''Expiration'', JStr []],
        qty = JNum qn,
        cost = JNum cn,
        bin = foldl js_or (getprop r ''Bin'')
          [getprop r ''Location'', getprop r ''Bin Location'', getprop r ''Loc'', JStr []] \<rparr>"
      by (simp add: normalizeRow_def split: if_splits)
    with qn Inr show ?thesis by simp
  qed
qed

lemma normalizeRow_defined:
  assumes "normalizeRow fs r = Inr row"
  shows "row_defined row \<and> (\<exists>n. qty row = JNum n \<and> isFinite n) \<and>
         (\<exists>c. cost row = JNum c \<and> isFinite c)"
proof -
  from normalizeRow_fields[OF assms] obtain qn cn where
    q: "toNumber fs (foldl js_or (getprop r ''Qty'')
          [getprop r ''Quantity'', getprop r ''On Hand'', getprop r ''Qty On Hand'']) = Inr qn"
    and c: "toNumber fs (foldl js_or (getprop r ''Cost'')
          [getprop r ''Avg Cost'', getprop r ''Unit Cost'']) = Inr cn"
    and row: "qty row = JNum qn" "cost row = JNum cn"
      "item row = foldl js_or (getprop r ''Item'')
          [getprop r ''SKU'', getprop r ''Item (SKU)'', getprop r ''Item Name'',
           getprop r ''Product'', JStr []]"
      "serial row = foldl js_or (getprop r ''Lot/Serial'')
          [getprop r ''LotSerial'', getprop r ''Serial'', getprop r ''IMEI'',
           getprop r ''Lot / Serial'', JStr []]"
      "expiration row = foldl js_or (getprop r ''Expiration Date'')
          [getprop r ''Expiry'', getprop r ''Expiration'', JStr []]"
      "bin row = foldl js_or (getprop r ''Bin'')
          [getprop r ''Location'', getprop r ''Bin Location'', getprop r ''Loc'', JStr []]"
    by blast
  have "isFinite qn" "isFinite cn"
    using q c toNumber_finite by blast+
  then show ?thesis
    using row by (simp add: row_defined_def or_default_defined)
qed

lemma normalizeRow_aliases:
  assumes "normalizeRow fs r = Inr row"
  shows "((\<forall>k\<in>set [''Item'', ''SKU'', ''Item (SKU)'', ''Item Name'', ''Product''].
            \<not> truthy (getprop r k)) \<longrightarrow> item row = JStr []) \<and>
         ((\<forall>k\<in>set [''Lot/Serial'', ''LotSerial'', ''Serial'', ''IMEI'', ''Lot / Serial''].
            \<not> truthy (getprop r k)) \<longrightarrow> serial row = JStr []) \<and>
         ((\<forall>k\<in>set [''Expiration Date'', ''Expiry'', ''Expiration''].
            \<not> truthy (getprop r k)) \<longrightarrow> expiration row = JStr []) \<and>
         ((\<forall>k\<in>set [''Bin'', ''Location'', ''Bin Location'', ''Loc''].
            \<not> truthy (getprop r k)) \<longrightarrow> bin row = JStr []) \<and>
         ((\<forall>k\<in>set [''Qty'', ''Quantity'', ''On Hand'', ''Qty On Hand''].
            \<not> truthy (getprop r k)) \<longrightarrow> qty row = JNum (Fin 0)) \<and>
         ((\<forall>k\<in>set [''Cost'', ''Avg Cost'', ''Unit Cost''].
            \<not> truthy (getprop r k)) \<longrightarrow> cost row = JNum (Fin 0))"
proof -
  from normalizeRow_fields[OF assms] obtain qn cn where
    q: "toNumber fs (foldl js_or (getprop r ''Qty'')
          [getprop r ''Quantity'', getprop r ''On Hand'', getprop r ''Qty On Hand'']) = Inr qn"
    and c: "toNumber fs (foldl js_or (getprop r ''Cost'')
          [getprop r ''Avg Cost'', getprop r ''Unit Cost'']) = Inr cn"
    and qc: "qty row = JNum qn" "cost row = JNum cn"
    and i: "item row = foldl js_or (getprop r ''Item'')
          [getprop r ''SKU'', getprop r ''Item (SKU)'', getprop r ''Item Name'',
           getprop r ''Product'', JStr []]"
    and s: "serial row = foldl js_or (getprop r ''Lot/Serial'')
          [getprop r ''LotSerial'', getprop r ''Serial'', getprop r ''IMEI'',
           getprop r ''Lot / Serial'', JStr []]"
    and e: "expiration row = foldl js_or (getprop r ''Expiration Date'')
          [getprop r ''Expiry'', getprop r ''Expiration'', JStr []]"
    and b: "bin row = foldl js_or (getprop r ''Bin'')
          [getprop r ''Location'', getprop r ''Bin Location'', getprop r ''Loc'', JStr []]"
    by blast
  have f: "\<not> truthy a \<Longrightarrow> \<not> truthy b \<Longrightarrow> \<not> truthy (js_or a b)" for a b
    by (simp add: js_or_def)
  have d: "\<not> truthy a \<Longrightarrow> js_or a (JStr []) = JStr []" for a
    by (simp add: js_or_def)
  have 1: "(\<forall>k\<in>set [''Item'', ''SKU'', ''Item (SKU)'', ''Item Name'', ''Product''].
            \<not> truthy (getprop r k)) \<longrightarrow> item row = JStr []"
    by (simp add: i f d)
  have 2: "(\<forall>k\<in>set [''Lot/Serial'', ''LotSerial'', ''Serial'', ''IMEI'', ''Lot / Serial''].
            \<not> truthy (getprop r k)) \<longrightarrow> serial row = JStr []"
    by (simp add: s f d)
  have 3: "(\<forall>k\<in>set [''Expiration Date'', ''Expiry'', ''Expiration''].
            \<not> truthy (getprop r k)) \<longrightarrow> expiration row = JStr []"
    by (simp add: e f d)
  have 4: "(\<forall>k\<in>set [''Bin'', ''Location'', ''Bin Location'', ''Loc''].
            \<not> truthy (getprop r k)) \<longrightarrow> bin row = JStr []"
    by (simp add: b f d)
  have 5: "(\<forall>k\<in>set [''Qty'', ''Quantity'', ''On Hand'', ''Qty On Hand''].
            \<not> truthy (getprop r k)) \<longrightarrow> qty row = JNum (Fin 0)"
  proof
    assume "\<forall>k\<in>set [''Qty'', ''Quantity'', ''On Hand'', ''Qty On Hand'']. \<not> truthy (getprop r k)"
    then have "\<not> truthy (foldl js_or (getprop r ''Qty'')
          [getprop r ''Quantity'', getprop r ''On Hand'', getprop r ''Qty On Hand''])"
      by (simp add: f)
    from toNumber_falsy[OF this, of fs] q qc show "qty row = JNum (Fin 0)" by simp
  qed
  have 6: "(\<forall>k\<in>set [''Cost'', ''Avg Cost'', ''Unit Cost''].
            \<not> truthy (getprop r k)) \<longrightarrow> cost row = JNum (Fin 0)"
  proof
    assume "\<forall>k\<in>set [''Cost'', ''Avg Cost'', ''Unit Cost'']. \<not> truthy (getprop r k)"
    then have "\<not> truthy (foldl js_or (getprop r ''Cost'')
          [getprop r ''Avg Cost'', getprop r ''Unit Cost''])"
      by (simp add: f)
    from toNumber_falsy[OF this, of fs] c qc show "cost row = JNum (Fin 0)" by simp
  qed
  show ?thesis using 1 2 3 4 5 6 by (intro conjI)
qed

lemma mkRow_defined:
  "row_defined (mkRow fs qy lot itm bn) \<and> qty (mkRow fs qy lot itm bn) = JNum qy \<and>
   (cost (mkRow fs qy lot itm bn) = JNull \<or> (\<exists>c. cost (mkRow fs qy lot itm bn) = JNum c))"
  using firstCost_defined[of fs itm]
  by (auto simp: mkRow_def row_defined_def or_default_defined)

lemma mkRow_aliases:
  "\<not> truthy (optget itm ''Name'') \<and> \<not> truthy (optget itm ''ItemName'') \<longrightarrow>
      item (mkRow fs qy lot itm bn) = JStr []"
  "\<not> truthy (optget lot ''LotOrSerialNumber'') \<and> \<not> truthy (optget lot ''Serial'') \<and>
    \<not> truthy (optget lot ''IMEI'') \<longrightarrow> serial (mkRow fs qy lot itm bn) = JStr []"
  "\<not> truthy (optget lot ''ExpirationDate'') \<and> \<not> truthy (optget lot ''Expiry'') \<longrightarrow>
      expiration (mkRow fs qy lot itm bn) = JStr []"
  "\<not> truthy (optget bn ''Name'') \<longrightarrow> bin (mkRow fs qy lot itm bn) = JStr []"
  by (simp_all add: mkRow_def js_or_def)

lemma balance_qty_default:
  "nullish (getprop r ''OnHand'') \<Longrightarrow> nullish (getprop r ''Qty'') \<Longrightarrow> balance_qty fs r = Fin 0"
  by (simp add: balance_qty_def js_coalesce_def nullish_def)

text \<open>
  Claim C1. No field of an output row of either pipeline is \<^verbatim>\<open>undefined\<close>, whether
  the report rows come from JSON or from the CSV parser. In the report
  pipeline \<^verbatim>\<open>qty\<close> and \<^verbatim>\<open>cost\<close> are finite numbers; in the live pipeline \<^verbatim>\<open>qty\<close> is
  a number and \<^verbatim>\<open>cost\<close> is a number or \<^verbatim>\<open>null\<close>. When every alias of a string field is
  missing or falsy the field is the empty string; when every quantity alias of a report
  record is missing or falsy \<^verbatim>\<open>qty\<close> is 0 (and so is \<^verbatim>\<open>cost\<close> for the cost aliases), and
  when both quantity fields of a balance record are missing \<^verbatim>\<open>qty\<close> is 0.
\<close>

theorem rows_never_undefined:
  "(reportRows fs parsed raw = Inr rows \<longrightarrow>
      (\<forall>row\<in>set rows. row_defined row \<and> (\<exists>n. qty row = JNum n \<and> isFinite n) \<and>
         (\<exists>c. cost row = JNum c \<and> isFinite c))) \<and>
   (normalizeRow fs r = Inr row \<longrightarrow>
      ((\<forall>k\<in>set [''Item'', ''SKU'', ''Item (SKU)'', ''Item Name'', ''Product''].
          \<not> truthy (getprop r k)) \<longrightarrow> item row = JStr []) \<and>
      ((\<forall>k\<in>set [''Lot/Serial'', ''LotSerial'', ''Serial'', ''IMEI'', ''Lot / Serial''].
          \<not> truthy (getprop r k)) \<longrightarrow> serial row = JStr []) \<and>
      ((\<forall>k\<in>set [''Expiration Date'', ''Expiry'', ''Expiration''].
          \<not> truthy (getprop r k)) \<longrightarrow> expiration row = JStr []) \<and>
      ((\<forall>k\<in>set [''Bin'', ''Location'', ''Bin Location'', ''Loc''].
          \<not> truthy (getprop r k)) \<longrightarrow> bin row = JStr []) \<and>
      ((\<forall>k\<in>set [''Qty'', ''Quantity'', ''On Hand'', ''Qty On Hand''].
          \<not> truthy (getprop r k)) \<longrightarrow> qty row = JNum (Fin 0)) \<and>
      ((\<forall>k\<in>set [''Cost'', ''Avg Cost'', ''Unit Cost''].
          \<not> truthy (getprop r k)) \<longrightarrow> cost row = JNum (Fin 0))) \<and>
   (buildRows fs q invBalances lots items bins = Inr lrows \<longrightarrow>
      (\<forall>row\<in>set lrows. row_defined row \<and> (\<exists>n. qty row = JNum n) \<and>
         (cost row = JNull \<or> (\<exists>c. cost row = JNum c)))) \<and>
   (joinRow fs q lotById itemById binById b = Inr (Some lrow) \<longrightarrow>
      lrow = mkRow fs (balance_qty fs b)
               (lookup lotById (ref_id b ''LotOrSerialRef'' ''LotOrSerialId''))
               (lookup itemById (ref_id b ''ItemRef'' ''ItemId''))
               (lookup binById (ref_id b ''BinRef'' ''BinId''))) \<and>
   (\<not> truthy (optget itm ''Name'') \<and> \<not> truthy (optget itm ''ItemName'') \<longrightarrow>
      item (mkRow fs qy lot itm bn) = JStr []) \<and>
   (\<not> truthy (optget lot ''LotOrSerialNumber'') \<and> \<not> truthy (optget lot ''Serial'') \<and>
    \<not> truthy (optget lot ''IMEI'') \<longrightarrow> serial (mkRow fs qy lot itm bn) = JStr []) \<and>
   (\<not> truthy (optget lot ''ExpirationDate'') \<and> \<not> truthy (optget lot ''Expiry'') \<longrightarrow>
      expiration (mkRow fs qy lot itm bn) = JStr []) \<and>
   (\<not> truthy (optget bn ''Name'') \<longrightarrow> bin (mkRow fs qy lot itm bn) = JStr []) \<and>
   (nullish (getprop b ''OnHand'') \<and> nullish (getprop b ''Qty'') \<longrightarrow> balance_qty fs b = Fin 0) \<and>
   qty (mkRow fs qy lot itm bn) = JNum qy"
proof -
  have 1: "reportRows fs parsed raw = Inr rows \<longrightarrow>
      (\<forall>row\<in>set rows. row_defined row \<and> (\<exists>n. qty row = JNum n \<and> isFinite n) \<and>
         (\<exists>c. cost row = JNum c \<and> isFinite c))"
  proof (intro impI ballI)
    fix row' assume "reportRows fs parsed raw = Inr rows" "row' \<in> set rows"
    then obtain r' where "normalizeRow fs r' = Inr row'"
      unfolding reportRows_def using normalizeRows_rows by blast
    then show "row_defined row' \<and> (\<exists>n. qty row' = JNum n \<and> isFinite n) \<and>
         (\<exists>c. cost row' = JNum c \<and> isFinite c)"
      by (rule normalizeRow_defined)
  qed
  have 2: "normalizeRow fs r = Inr row \<longrightarrow>
      ((\<forall>k\<in>set [''Item'', ''SKU'', ''Item (SKU)'', ''Item Name'', ''Product''].
          \<not> truthy (getprop r k)) \<longrightarrow> item row = JStr []) \<and>
      ((\<forall>k\<in>set [''Lot/Serial'', ''LotSerial'', ''Serial'', ''IMEI'', ''Lot / Serial''].
          \<not> truthy (getprop r k)) \<longrightarrow> serial row = JStr []) \<and>
      ((\<forall>k\<in>set [''Expiration Date'', ''Expiry'', ''Expiration''].
          \<not> truthy (getprop r k)) \<longrightarrow> expiration row = JStr []) \<and>
      ((\<forall>k\<in>set [''Bin'', ''Location'', ''Bin Location'', ''Loc''].
          \<not> truthy (getprop r k)) \<longrightarrow> bin row = JStr []) \<and>
      ((\<forall>k\<in>set [''Qty'', ''Quantity'', ''On Hand'', ''Qty On Hand''].
          \<not> truthy (getprop r k)) \<longrightarrow> qty row = JNum (Fin 0)) \<and>
      ((\<forall>k\<in>set [''Cost'', ''Avg Cost'', ''Unit Cost''].
          \<not> truthy (getprop r k)) \<longrightarrow> cost row = JNum (Fin 0))"
    by (rule impI) (rule normalizeRow_aliases)
  have 3: "buildRows fs q invBalances lots items bins = Inr lrows \<longrightarrow>
      (\<forall>row\<in>set lrows. row_defined row \<and> (\<exists>n. qty row = JNum n) \<and>
         (cost row = JNull \<or> (\<exists>c. cost row = JNum c)))"
  proof (intro impI ballI)
    fix row' assume a: "buildRows fs q invBalances lots items bins = Inr lrows" "row' \<in> set lrows"
    from a(1) obtain lb ib bb where "liveRows fs q lb ib bb invBalances = Inr lrows"
      by (auto simp: buildRows_def split: sum.splits)
    with a(2) obtain b' where "joinRow fs q lb ib bb b' = Inr (Some row')"
      using liveRows_rows by blast
    from joinRow_Some[OF this] obtain qy' lot' itm' bn' where "row' = mkRow fs qy' lot' itm' bn'"
      by blast
    then show "row_defined row' \<and> (\<exists>n. qty row' = JNum n) \<and>
         (cost row' = JNull \<or> (\<exists>c. cost row' = JNum c))"
      using mkRow_defined[of fs qy' lot' itm' bn'] by simp
  qed
  have 4: "joinRow fs q lotById itemById binById b = Inr (Some lrow) \<longrightarrow>
      lrow = mkRow fs (balance_qty fs b)
               (lookup lotById (ref_id b ''LotOrSerialRef'' ''LotOrSerialId''))
               (lookup itemById (ref_id b ''ItemRef'' ''ItemId''))
               (lookup binById (ref_id b ''BinRef'' ''BinId''))"
    using joinRow_Some by blast
  have 5: "nullish (getprop b ''OnHand'') \<and> nullish (getprop b ''Qty'') \<longrightarrow>
      balance_qty fs b = Fin 0"
    by (simp add: balance_qty_default)
  have 6: "qty (mkRow fs qy lot itm bn) = JNum qy"
    by (simp add: mkRow_def)
  show ?thesis
    using 1 2 3 4 5 6 by (intro conjI mkRow_aliases)
qed

theorem rows_never_undefined_witness:
  "reportRows (\<lambda>q. []) None (''Item,Qty,Bin'' @ [newline] @ ''Widget,10,A1'' @ [newline]) =
     Inr [\<lparr> item = JStr ''Widget'', serial = JStr [], expiration = JStr [], qty = JNum (Fin 10),
            cost = JNum (Fin 0), bin = JStr ''A1'' \<rparr>] \<and>
   reportRows (\<lambda>q. []) (Some (JArr [JObj []])) [] =
     Inr [\<lparr> item = JStr [], serial = JStr [], expiration = JStr [], qty = JNum (Fin 0),
            cost = JNum (Fin 0), bin = JStr [] \<rparr>] \<and>
   buildRows (\<lambda>q. []) \<lparr> location = None, binPrefix = None, qtygt = Some ''-1'' \<rparr>
     [JObj [(''LotOrSerialId'', JNum (Fin 3))]] [] [] [] =
     Inr [\<lparr> item = JStr [], serial = JStr [], expiration = JStr [], qty = JNum (Fin 0),
            cost = JNull, bin = JStr [] \<rparr>] \<and>
   row_defined \<lparr> item = JStr [], serial = JStr [], expiration = JStr [], qty = JNum (Fin 0),
            cost = JNull, bin = JStr [] \<rparr>"
proof -
  have csv: "parseCsvToObjects (''Item,Qty,Bin'' @ [newline] @ ''Widget,10,A1'' @ [newline]) =
      [[(''Item'', ''Widget''), (''Qty'', ''10''), (''Bin'', ''A1'')]]"
    by (simp add: csv_defs char_defs)
  show ?thesis
    using rows_never_undefined[where fs = "\<lambda>q. []" and parsed = None
        and raw = "''Item,Qty,Bin'' @ [newline] @ ''Widget,10,A1'' @ [newline]"
        and rows = "[\<lparr> item = JStr ''Widget'', serial = JStr [], expiration = JStr [],
              qty = JNum (Fin 10), cost = JNum (Fin 0), bin = JStr ''A1'' \<rparr>]"
        and r = "JObj []"
        and row = "\<lparr> item = JStr [], serial = JStr [], expiration = JStr [], qty = JNum (Fin 0),
              cost = JNum (Fin 0), bin = JStr [] \<rparr>"
        and q = "\<lparr> location = None, binPrefix = None, qtygt = Some ''-1'' \<rparr>"
        and lotById = "[]" and itemById = "[]" and binById = "[]"
        and invBalances = "[JObj [(''LotOrSerialId'', JNum (Fin 3))]]"
        and lots = "[]" and items = "[]" and bins = "[]"
        and lrows = "[\<lparr> item = JStr [], serial = JStr [], expiration = JStr [],
              qty = JNum (Fin 0), cost = JNull, bin = JStr [] \<rparr>]"
        and b = "JObj [(''LotOrSerialId'', JNum (Fin 3))]"
        and lrow = "\<lparr> item = JStr [], serial = JStr [], expiration = JStr [], qty = JNum (Fin 0),
              cost = JNull, bin = JStr [] \<rparr>"
        and itm = JUndefined and qy = "Fin 0" and lot = JNull and bn = JNull]
      rows_never_undefined[where fs = "\<lambda>q. []" and parsed = "Some (JArr [JObj []])"
        and raw = "[]"
        and rows = "[\<lparr> item = JStr [], serial = JStr [], expiration = JStr [], qty = JNum (Fin 0),
              cost = JNum (Fin 0), bin = JStr [] \<rparr>]", THEN conjunct1]
    by (simp add: csv[simplified] reportRows_def csvObject_def buildRows_def normalizeRow_def
        toNumber_def ToString_def comma_def space_def isFinite_def row_defined_def live_defs num_defs)
qed





section \<open>Properties of the list fetcher\<close>

lemma otList_loop_rejected:
  "rejected srv lg (map (\<lambda>h. \<lparr> url = u, headers = h, body = b \<rparr>) hs1) \<Longrightarrow>
   otList_loop srv u b (hs1 @ hs2) t lg =
     otList_loop srv u b hs2
       (last_text srv lg (map (\<lambda>h. \<lparr> url = u, headers = h, body = b \<rparr>) hs1) t)
       (lg @ map (\<lambda>h. \<lparr> url = u, headers = h, body = b \<rparr>) hs1)"
proof (induction hs1 arbitrary: t lg)
  case Nil
  then show ?case by simp
next
  case (Cons h hs1)
  then show ?case
    by (auto simp: Let_def split: fetch_result.splits)
qed

lemma otList_loop_at:
  assumes "k < length hs"
    and "rejected srv lg (take k (map (\<lambda>h. \<lparr> url = u, headers = h, body = b \<rparr>) hs))"
  shows "otList_loop srv u b hs t lg =
     otList_loop srv u b (hs ! k # drop (Suc k) hs)
       (last_text srv lg (take k (map (\<lambda>h. \<lparr> url = u, headers = h, body = b \<rparr>) hs)) t)
       (lg @ take k (map (\<lambda>h. \<lparr> url = u, headers = h, body = b \<rparr>) hs))"
proof -
  have "hs = take k hs @ (hs ! k # drop (Suc k) hs)"
    using assms(1) by (simp add: id_take_nth_drop)
  then have "otList_loop srv u b hs t lg =
      otList_loop srv u b (take k hs @ (hs ! k # drop (Suc k) hs)) t lg"
    by simp
  also have "\<dots> = otList_loop srv u b (hs ! k # drop (Suc k) hs)
       (last_text srv lg (map (\<lambda>h. \<lparr> url = u, headers = h, body = b \<rparr>) (take k hs)) t)
       (lg @ map (\<lambda>h. \<lparr> url = u, headers = h, body = b \<rparr>) (take k hs))"
    using assms(2) by (intro otList_loop_rejected) (simp add: take_map)
  finally show ?thesis by (simp add: take_map)
qed

lemma take_Suc_snoc: "k < length xs \<Longrightarrow> take (Suc k) xs = take k xs @ [xs ! k]"
  by (simp add: take_Suc_conv_app_nth)

lemma otList_success:
  assumes "k < length (list_requests e ty os)"
    and "rejected srv lg (take k (list_requests e ty os))"
    and "srv (lg @ take k (list_requests e ty os)) (list_requests e ty os ! k) = Response res"
    and "ok res" and "body_json res = Some d"
  shows "otList e srv ty os lg = (Inr d, lg @ take (Suc k) (list_requests e ty os))"
proof -
  have k: "k < length (tries e)" using assms(1) by (simp add: list_requests_def)
  show ?thesis
    using assms(2-5) k otList_loop_at[OF k, of srv lg "list_url e" "list_request_body ty os" "[]"]
    by (simp add: otList_def list_requests_def take_Suc_snoc Let_def)
qed

lemma otList_fatal:
  assumes "k < length (list_requests e ty os)"
    and "rejected srv lg (take k (list_requests e ty os))"
    and "srv (lg @ take k (list_requests e ty os)) (list_requests e ty os ! k) = Response res"
    and "\<not> ok res" and "\<not> auth_failure (body_text res)"
  shows "otList e srv ty os lg =
           (Inl (ListFailed ty (status res) (body_text res)),
            lg @ take (Suc k) (list_requests e ty os))"
proof -
  have k: "k < length (tries e)" using assms(1) by (simp add: list_requests_def)
  show ?thesis
    using assms(2-5) k otList_loop_at[OF k, of srv lg "list_url e" "list_request_body ty os" "[]"]
    by (simp add: otList_def list_requests_def take_Suc_snoc Let_def list_request_body_def)
qed

lemma otList_exhausted:
  assumes "rejected srv lg (list_requests e ty os)"
  shows "otList e srv ty os lg =
           (Inl (AuthFailed ty (last_text srv lg (list_requests e ty os) [])),
            lg @ list_requests e ty os)"
  using otList_loop_rejected[of srv lg "list_url e" "list_request_body ty os" "tries e" "[]" "[]"]
    assms
  by (simp add: otList_def list_requests_def list_request_body_def)

lemma tries_order:
  "take 4 (tries e) =
     [[(''Authorization'', ''Bearer '' @ OT_API_KEY e), (''Content-Type'', ''application/json'')],
      [(''ApiKey'', OT_API_KEY e), (''Content-Type'', ''application/json'')],
      [(''X-API-KEY'', OT_API_KEY e), (''Content-Type'', ''application/json'')],
      [(''x-api-key'', OT_API_KEY e), (''Content-Type'', ''application/json'')]]"
  "OT_BASIC_USER e = Some usr \<and> OT_BASIC_PASS e = Some pw \<and> usr \<noteq> [] \<and> pw \<noteq> [] \<longrightarrow>
     drop 4 (tries e) =
       [[(''Authorization'', ''Basic '' @ base64 (usr @ '':'' @ pw)),
         (''Content-Type'', ''application/json'')]]"
  "OT_BASIC_USER e = None \<or> OT_BASIC_USER e = Some [] \<or>
   OT_BASIC_PASS e = None \<or> OT_BASIC_PASS e = Some [] \<longrightarrow> drop 4 (tries e) = []"
  by (auto simp: tries_def split: option.splits)

text \<open>
  Claim C2. \<^verbatim>\<open>otList\<close> tries the header sets in the order bearer token, \<^verbatim>\<open>ApiKey\<close>,
  \<^verbatim>\<open>X-API-KEY\<close>, \<^verbatim>\<open>x-api-key\<close>, then HTTP Basic when both basic credentials are set, and
  not otherwise. When the first \<open>k\<close> requests are answered with authentication failures,
  a success at the next request returns its payload and a failure that is no
  authentication failure raises with its status and body, in both cases after exactly
  \<open>k + 1\<close> calls; when every request is answered with an authentication failure, the
  call raises with the last body after all of them. An authentication failure is a body
  that holds one of the four phrases, in any case.
\<close>

theorem otList_auth_fallback:
  "take 4 (tries e) =
     [[(''Authorization'', ''Bearer '' @ OT_API_KEY e), (''Content-Type'', ''application/json'')],
      [(''ApiKey'', OT_API_KEY e), (''Content-Type'', ''application/json'')],
      [(''X-API-KEY'', OT_API_KEY e), (''Content-Type'', ''application/json'')],
      [(''x-api-key'', OT_API_KEY e), (''Content-Type'', ''application/json'')]] \<and>
   (OT_BASIC_USER e = Some usr \<and> OT_BASIC_PASS e = Some pw \<and> usr \<noteq> [] \<and> pw \<noteq> [] \<longrightarrow>
      drop 4 (tries e) =
        [[(''Authorization'', ''Basic '' @ base64 (usr @ '':'' @ pw)),
          (''Content-Type'', ''application/json'')]]) \<and>
   (OT_BASIC_USER e = None \<or> OT_BASIC_USER e = Some [] \<or>
    OT_BASIC_PASS e = None \<or> OT_BASIC_PASS e = Some [] \<longrightarrow> drop 4 (tries e) = []) \<and>
   (k < length (list_requests e ty os) \<and> rejected srv lg (take k (list_requests e ty os)) \<and>
    srv (lg @ take k (list_requests e ty os)) (list_requests e ty os ! k) = Response res \<and>
    ok res \<and> body_json res = Some d \<longrightarrow>
      otList e srv ty os lg = (Inr d, lg @ take (Suc k) (list_requests e ty os)) \<and>
      length (take (Suc k) (list_requests e ty os)) = Suc k) \<and>
   (k < length (list_requests e ty os) \<and> rejected srv lg (take k (list_requests e ty os)) \<and>
    srv (lg @ take k (list_requests e ty os)) (list_requests e ty os ! k) = Response res \<and>
    \<not> ok res \<and> \<not> auth_failure (body_text res) \<longrightarrow>
      otList e srv ty os lg =
        (Inl (ListFailed ty (status res) (body_text res)),
         lg @ take (Suc k) (list_requests e ty os)) \<and>
      length (take (Suc k) (list_requests e ty os)) = Suc k) \<and>
   (rejected srv lg (list_requests e ty os) \<longrightarrow>
      otList e srv ty os lg =
        (Inl (AuthFailed ty (last_text srv lg (list_requests e ty os) [])),
         lg @ list_requests e ty os)) \<and>
   map headers (list_requests e ty os) = tries e \<and>
   auth_failure t =
     (has_infix ''incorrect api key'' (map lower t) \<or> has_infix ''unauthorized'' (map lower t) \<or>
      has_infix ''forbidden'' (map lower t) \<or> has_infix ''invalid token'' (map lower t))"
proof -
  have 4: "k < length (list_requests e ty os) \<and> rejected srv lg (take k (list_requests e ty os)) \<and>
    srv (lg @ take k (list_requests e ty os)) (list_requests e ty os ! k) = Response res \<and>
    ok res \<and> body_json res = Some d \<longrightarrow>
      otList e srv ty os lg = (Inr d, lg @ take (Suc k) (list_requests e ty os)) \<and>
      length (take (Suc k) (list_requests e ty os)) = Suc k"
    using otList_success[of k e ty os srv lg res d] by simp
  have 5: "k < length (list_requests e ty os) \<and> rejected srv lg (take k (list_requests e ty os)) \<and>
    srv (lg @ take k (list_requests e ty os)) (list_requests e ty os ! k) = Response res \<and>
    \<not> ok res \<and> \<not> auth_failure (body_text res) \<longrightarrow>
      otList e srv ty os lg =
        (Inl (ListFailed ty (status res) (body_text res)),
         lg @ take (Suc k) (list_requests e ty os)) \<and>
      length (take (Suc k) (list_requests e ty os)) = Suc k"
    using otList_fatal[of k e ty os srv lg res] by simp
  have 6: "rejected srv lg (list_requests e ty os) \<longrightarrow>
      otList e srv ty os lg =
        (Inl (AuthFailed ty (last_text srv lg (list_requests e ty os) [])),
         lg @ list_requests e ty os)"
    by (rule impI) (rule otList_exhausted)
  have 7: "map headers (list_requests e ty os) = tries e"
    by (simp add: list_requests_def comp_def)
  have 8: "auth_failure t =
     (has_infix ''incorrect api key'' (map lower t) \<or> has_infix ''unauthorized'' (map lower t) \<or>
      has_infix ''forbidden'' (map lower t) \<or> has_infix ''invalid token'' (map lower t))"
    by (simp add: auth_failure_def Let_def)
  show ?thesis
    using 4 5 6 7 8 by (intro conjI tries_order)
qed

lemmas fetch_defs = otList_def list_requests_def tries_def list_url_def list_request_body_def
  or_default_def js_or_def ok_def auth_failure_def lower_def page_records_def optget_def
  nullish_def

theorem otList_auth_fallback_witness:
  "otList \<lparr> OT_BASE_URL = ''https://ot.example/api/'', OT_API_KEY = ''key'',
            OT_BASIC_USER = None, OT_BASIC_PASS = None \<rparr>
     (\<lambda>lg rq. if length lg < 2
        then Response \<lparr> status = 401, body_text = ''Unauthorized'', body_json = None \<rparr>
        else Response \<lparr> status = 200, body_text = [],
               body_json = Some (JObj [(''Records'', JArr [])]) \<rparr>)
     ''Bin'' \<lparr> page = None, pageSize = None, filters = JUndefined, sortation = JUndefined \<rparr> [] =
   (Inr (JObj [(''Records'', JArr [])]),
    map (\<lambda>h. \<lparr> url = ''https://ot.example/api/list'', headers = h,
                 body = \<lparr> Type = ''Bin'', PageNumber = 1, NumberOfRecords = 500,
                          Filters = JArr [],
                          Sortation = JObj [(''PropertyName'', JStr ''Id''),
                                            (''Direction'', JNum (Fin 1))] \<rparr> \<rparr>)
      [[(''Authorization'', ''Bearer key''), (''Content-Type'', ''application/json'')],
       [(''ApiKey'', ''key''), (''Content-Type'', ''application/json'')],
       [(''X-API-KEY'', ''key''), (''Content-Type'', ''application/json'')]]) \<and>
   otList \<lparr> OT_BASE_URL = ''https://ot.example/api/'', OT_API_KEY = ''key'',
            OT_BASIC_USER = None, OT_BASIC_PASS = None \<rparr>
     (\<lambda>lg rq. if length lg < 1
        then Response \<lparr> status = 403, body_text = ''FORBIDDEN'', body_json = None \<rparr>
        else Response \<lparr> status = 500, body_text = ''boom'', body_json = None \<rparr>)
     ''Bin'' \<lparr> page = None, pageSize = None, filters = JUndefined, sortation = JUndefined \<rparr> [] =
   (Inl (ListFailed ''Bin'' 500 ''boom''),
    map (\<lambda>h. \<lparr> url = ''https://ot.example/api/list'', headers = h,
                 body = \<lparr> Type = ''Bin'', PageNumber = 1, NumberOfRecords = 500,
                          Filters = JArr [],
                          Sortation = JObj [(''PropertyName'', JStr ''Id''),
                                            (''Direction'', JNum (Fin 1))] \<rparr> \<rparr>)
      [[(''Authorization'', ''Bearer key''), (''Content-Type'', ''application/json'')],
       [(''ApiKey'', ''key''), (''Content-Type'', ''application/json'')]]) \<and>
   otList \<lparr> OT_BASE_URL = ''https://ot.example/api/'', OT_API_KEY = ''key'',
            OT_BASIC_USER = Some ''user'', OT_BASIC_PASS = Some ''pass'' \<rparr>
     (\<lambda>lg rq. Response \<lparr> status = 401, body_text = ''Invalid token'', body_json = None \<rparr>)
     ''Bin'' \<lparr> page = None, pageSize = None, filters = JUndefined, sortation = JUndefined \<rparr> [] =
   (Inl (AuthFailed ''Bin'' ''Invalid token''),
    map (\<lambda>h. \<lparr> url = ''https://ot.example/api/list'', headers = h,
                 body = \<lparr> Type = ''Bin'', PageNumber = 1, NumberOfRecords = 500,
                          Filters = JArr [],
                          Sortation = JObj [(''PropertyName'', JStr ''Id''),
                                            (''Direction'', JNum (Fin 1))] \<rparr> \<rparr>)
      [[(''Authorization'', ''Bearer key''), (''Content-Type'', ''application/json'')],
       [(''ApiKey'', ''key''), (''Content-Type'', ''application/json'')],
       [(''X-API-KEY'', ''key''), (''Content-Type'', ''application/json'')],
       [(''x-api-key'', ''key''), (''Content-Type'', ''application/json'')],
       [(''Authorization'', ''Basic dXNlcjpwYXNz''), (''Content-Type'', ''application/json'')]])"
proof -
  have success: "otList \<lparr> OT_BASE_URL = ''https://ot.example/api/'', OT_API_KEY = ''key'',
            OT_BASIC_USER = None, OT_BASIC_PASS = None \<rparr>
     (\<lambda>lg rq. if length lg < 2
        then Response \<lparr> status = 401, body_text = ''Unauthorized'', body_json = None \<rparr>
        else Response \<lparr> status = 200, body_text = [],
               body_json = Some (JObj [(''Records'', JArr [])]) \<rparr>)
     ''Bin'' \<lparr> page = None, pageSize = None, filters = JUndefined, sortation = JUndefined \<rparr> [] =
   (Inr (JObj [(''Records'', JArr [])]),
    map (\<lambda>h. \<lparr> url = ''https://ot.example/api/list'', headers = h,
                 body = \<lparr> Type = ''Bin'', PageNumber = 1, NumberOfRecords = 500,
                          Filters = JArr [],
                          Sortation = JObj [(''PropertyName'', JStr ''Id''),
                                            (''Direction'', JNum (Fin 1))] \<rparr> \<rparr>)
      [[(''Authorization'', ''Bearer key''), (''Content-Type'', ''application/json'')],
       [(''ApiKey'', ''key''), (''Content-Type'', ''application/json'')],
       [(''X-API-KEY'', ''key''), (''Content-Type'', ''application/json'')]])"
    using otList_auth_fallback[where e = "\<lparr> OT_BASE_URL = ''https://ot.example/api/'',
          OT_API_KEY = ''key'', OT_BASIC_USER = None, OT_BASIC_PASS = None \<rparr>"
        and srv = "\<lambda>lg rq. if length lg < 2
          then Response \<lparr> status = 401, body_text = ''Unauthorized'', body_json = None \<rparr>
          else Response \<lparr> status = 200, body_text = [],
                 body_json = Some (JObj [(''Records'', JArr [])]) \<rparr>"
        and ty = "''Bin''"
        and os = "\<lparr> page = None, pageSize = None, filters = JUndefined, sortation = JUndefined \<rparr>"
        and lg = "[]" and k = 2
        and res = "\<lparr> status = 200, body_text = [],
                 body_json = Some (JObj [(''Records'', JArr [])]) \<rparr>"
        and d = "JObj [(''Records'', JArr [])]" and usr = "[]" and pw = "[]"
        and t = "''Unauthorized''"]
    by (simp add: fetch_defs take_Suc_conv_app_nth numeral_2_eq_2)
  have fatal: "otList \<lparr> OT_BASE_URL = ''https://ot.example/api/'', OT_API_KEY = ''key'',
            OT_BASIC_USER = None, OT_BASIC_PASS = None \<rparr>
     (\<lambda>lg rq. if length lg < 1
        then Response \<lparr> status = 403, body_text = ''FORBIDDEN'', body_json = None \<rparr>
        else Response \<lparr> status = 500, body_text = ''boom'', body_json = None \<rparr>)
     ''Bin'' \<lparr> page = None, pageSize = None, filters = JUndefined, sortation = JUndefined \<rparr> [] =
   (Inl (ListFailed ''Bin'' 500 ''boom''),
    map (\<lambda>h. \<lparr> url = ''https://ot.example/api/list'', headers = h,
                 body = \<lparr> Type = ''Bin'', PageNumber = 1, NumberOfRecords = 500,
                          Filters = JArr [],
                          Sortation = JObj [(''PropertyName'', JStr ''Id''),
                                            (''Direction'', JNum (Fin 1))] \<rparr> \<rparr>)
      [[(''Authorization'', ''Bearer key''), (''Content-Type'', ''application/json'')],
       [(''ApiKey'', ''key''), (''Content-Type'', ''application/json'')]])"
    using otList_auth_fallback[where e = "\<lparr> OT_BASE_URL = ''https://ot.example/api/'',
          OT_API_KEY = ''key'', OT_BASIC_USER = None, OT_BASIC_PASS = None \<rparr>"
        and srv = "\<lambda>lg rq. if length lg < 1
          then Response \<lparr> status = 403, body_text = ''FORBIDDEN'', body_json = None \<rparr>
          else Response \<lparr> status = 500, body_text = ''boom'', body_json = None \<rparr>"
        and ty = "''Bin''"
        and os = "\<lparr> page = None, pageSize = None, filters = JUndefined, sortation = JUndefined \<rparr>"
        and lg = "[]" and k = 1
        and res = "\<lparr> status = 500, body_text = ''boom'', body_json = None \<rparr>"
        and d = "JNull" and usr = "[]" and pw = "[]" and t = "''FORBIDDEN''"]
    by (simp add: fetch_defs take_Suc_conv_app_nth)
  have exhausted: "otList \<lparr> OT_BASE_URL = ''https://ot.example/api/'', OT_API_KEY = ''key'',
            OT_BASIC_USER = Some ''user'', OT_BASIC_PASS = Some ''pass'' \<rparr>
     (\<lambda>lg rq. Response \<lparr> status = 401, body_text = ''Invalid token'', body_json = None \<rparr>)
     ''Bin'' \<lparr> page = None, pageSize = None, filters = JUndefined, sortation = JUndefined \<rparr> [] =
   (Inl (AuthFailed ''Bin'' ''Invalid token''),
    map (\<lambda>h. \<lparr> url = ''https://ot.example/api/list'', headers = h,
                 body = \<lparr> Type = ''Bin'', PageNumber = 1, NumberOfRecords = 500,
                          Filters = JArr [],
                          Sortation = JObj [(''PropertyName'', JStr ''Id''),
                                            (''Direction'', JNum (Fin 1))] \<rparr> \<rparr>)
      [[(''Authorization'', ''Bearer key''), (''Content-Type'', ''application/json'')],
       [(''ApiKey'', ''key''), (''Content-Type'', ''application/json'')],
       [(''X-API-KEY'', ''key''), (''Content-Type'', ''application/json'')],
       [(''x-api-key'', ''key''), (''Content-Type'', ''application/json'')],
       [(''Authorization'', ''Basic dXNlcjpwYXNz''), (''Content-Type'', ''application/json'')]])"
    using otList_auth_fallback[where e = "\<lparr> OT_BASE_URL = ''https://ot.example/api/'',
          OT_API_KEY = ''key'', OT_BASIC_USER = Some ''user'', OT_BASIC_PASS = Some ''pass'' \<rparr>"
        and srv = "\<lambda>lg rq. Response \<lparr> status = 401, body_text = ''Invalid token'',
                     body_json = None \<rparr>"
        and ty = "''Bin''"
        and os = "\<lparr> page = None, pageSize = None, filters = JUndefined, sortation = JUndefined \<rparr>"
        and lg = "[]" and k = 0
        and res = "\<lparr> status = 401, body_text = ''Invalid token'', body_json = None \<rparr>"
        and d = "JNull" and usr = "''user''" and pw = "''pass''" and t = "''Invalid token''"]
    by (simp add: fetch_defs base64_def utf8_def b64_sym_def)
  show ?thesis
    using success fatal exhausted by (intro conjI)
qed

section \<open>Properties of the pagination\<close>

lemma listAll_loop_pages:
  "pages_from e srv ty os pg ds lg = Some lg' \<Longrightarrow> ds \<noteq> [] \<Longrightarrow>
   \<forall>d\<in>set (butlast ds). \<not> length (page_records d) < or_default (pageSize os) 500 \<Longrightarrow>
   length (page_records (last ds)) < or_default (pageSize os) 500 \<or> pg + length ds = 201 \<Longrightarrow>
   pg + length ds \<le> 201 \<Longrightarrow>
   listAll_loop e srv ty os pg out lg = (Inr (out @ concat (map page_records ds)), lg')"
proof (induction ds arbitrary: pg out lg)
  case Nil
  then show ?case by simp
next
  case (Cons d ds)
  from Cons.prems(1) obtain lg1 where
    fetch: "otList e srv ty (os\<lparr>page := Some pg\<rparr>) lg = (Inr d, lg1)" and
    rest: "pages_from e srv ty os (Suc pg) ds lg1 = Some lg'"
    by (auto split: prod.splits sum.splits if_splits)
  show ?case
  proof (cases ds)
    case Nil
    with rest have "lg1 = lg'" by simp
    with Nil Cons.prems(4) fetch show ?thesis
      by (subst listAll_loop.simps) (auto simp: Let_def)
  next
    case (Cons d2 ds2)
    have full: "\<not> length (page_records d) < or_default (pageSize os) 500"
      using Cons.prems(3) Cons by simp
    have more: "\<not> pg + 1 > 200"
      using Cons.prems(5) Cons by simp
    have "listAll_loop e srv ty os (Suc pg) (out @ page_records d) lg1 =
        (Inr ((out @ page_records d) @ concat (map page_records ds)), lg')"
      using rest Cons.prems(3,4,5) Cons
      by (intro Cons.IH) auto
    with full more fetch show ?thesis
      by (subst listAll_loop.simps) (simp add: Let_def)
  qed
qed

lemma otList_loop_log:
  "\<exists>new. snd (otList_loop srv u b hs t lg) = lg @ new \<and> length new \<le> length hs \<and>
     (\<forall>rq\<in>set new. body rq = b)"
proof (induction hs arbitrary: t lg)
  case Nil
  then show ?case by simp
next
  case (Cons h hs)
  obtain new where
    "snd (otList_loop srv u b hs
       (case srv lg \<lparr> url = u, headers = h, body = b \<rparr> of
          Failed m \<Rightarrow> [] | Response res \<Rightarrow> body_text res)
       (lg @ [\<lparr> url = u, headers = h, body = b \<rparr>])) =
     (lg @ [\<lparr> url = u, headers = h, body = b \<rparr>]) @ new"
    "length new \<le> length hs" "\<forall>rq\<in>set new. body rq = b"
    using Cons.IH by blast
  then show ?case
    by (auto simp: Let_def split: fetch_result.splits option.splits
        intro: exI[of _ "[\<lparr> url = u, headers = h, body = b \<rparr>]"]
               exI[of _ "\<lparr> url = u, headers = h, body = b \<rparr> # new"])
qed

lemma otList_log:
  "\<exists>new. snd (otList e srv ty os lg) = lg @ new \<and> length new \<le> length (tries e) \<and>
     (\<forall>rq\<in>set new. PageNumber (body rq) = or_default (page os) 1)"
  using otList_loop_log[of srv "list_url e" "list_request_body ty os" "tries e" "[]" lg]
  by (auto simp: otList_def list_request_body_def)

lemma listAll_loop_log:
  "1 \<le> pg \<Longrightarrow> pg \<le> 200 \<Longrightarrow>
   \<exists>new. snd (listAll_loop e srv ty os pg out lg) = lg @ new \<and>
     length new \<le> (201 - pg) * length (tries e) \<and>
     (\<forall>rq\<in>set new. pg \<le> PageNumber (body rq) \<and> PageNumber (body rq) \<le> 200)"
proof (induction "200 - pg" arbitrary: pg out lg)
  case 0
  then have pg: "pg = 200" by simp
  obtain x lg1 where o: "otList e srv ty (os\<lparr>page := Some pg\<rparr>) lg = (x, lg1)"
    by (cases "otList e srv ty (os\<lparr>page := Some pg\<rparr>) lg") auto
  obtain new where n: "lg1 = lg @ new" "length new \<le> length (tries e)"
    "\<forall>rq\<in>set new. PageNumber (body rq) = pg"
    using otList_log[of e srv ty "os\<lparr>page := Some pg\<rparr>" lg] o pg
    by (auto simp: or_default_def)
  have "snd (listAll_loop e srv ty os pg out lg) = lg1"
    using o pg by (subst listAll_loop.simps) (auto simp: Let_def split: sum.splits)
  with n pg show ?case by auto
next
  case (Suc n)
  then have pg: "pg < 200" "1 \<le> pg" by simp_all
  obtain x lg1 where o: "otList e srv ty (os\<lparr>page := Some pg\<rparr>) lg = (x, lg1)"
    by (cases "otList e srv ty (os\<lparr>page := Some pg\<rparr>) lg") auto
  obtain new where n: "lg1 = lg @ new" "length new \<le> length (tries e)"
    "\<forall>rq\<in>set new. PageNumber (body rq) = pg"
    using otList_log[of e srv ty "os\<lparr>page := Some pg\<rparr>" lg] o pg
    by (auto simp: or_default_def)
  show ?case
  proof (cases "snd (listAll_loop e srv ty os pg out lg) = lg1")
    case True
    have "length new \<le> (201 - pg) * length (tries e)"
    proof -
      have "1 \<le> 201 - pg" using pg by arith
      then have "1 * length (tries e) \<le> (201 - pg) * length (tries e)"
        by (rule mult_le_mono1)
      then have "length (tries e) \<le> (201 - pg) * length (tries e)" by simp
      with n(2) show ?thesis by (rule le_trans)
    qed
    with True n pg show ?thesis by auto
  next
    case False
    then obtain d where d: "x = Inr d"
      "snd (listAll_loop e srv ty os pg out lg) =
       snd (listAll_loop e srv ty os (pg + 1) (out @ page_records d) lg1)"
      using o by (subst (asm) listAll_loop.simps) (auto simp: Let_def split: sum.splits if_splits)
    have "n = 200 - (pg + 1)" using Suc.hyps(2) by simp
    from Suc.hyps(1)[OF this, of "out @ page_records d" lg1] pg
    obtain new2 where n2:
      "snd (listAll_loop e srv ty os (pg + 1) (out @ page_records d) lg1) = lg1 @ new2"
      "length new2 \<le> (201 - (pg + 1)) * length (tries e)"
      "\<forall>rq\<in>set new2. pg + 1 \<le> PageNumber (body rq) \<and> PageNumber (body rq) \<le> 200"
      by auto
    have "length (new @ new2) \<le> length (tries e) + (201 - (pg + 1)) * length (tries e)"
      using n(2) n2(2) by simp
    also have "\<dots> = (201 - pg) * length (tries e)"
    proof -
      have "201 - pg = Suc (201 - (pg + 1))" using pg by simp
      then show ?thesis by simp
    qed
    finally have len: "length (new @ new2) \<le> (201 - pg) * length (tries e)" .
    have "snd (listAll_loop e srv ty os pg out lg) = lg @ (new @ new2)"
      using d n n2 by simp
    moreover have "\<forall>rq\<in>set (new @ new2). pg \<le> PageNumber (body rq) \<and> PageNumber (body rq) \<le> 200"
      using n(3) n2(3) pg by auto
    ultimately show ?thesis using len by blast
  qed
qed

text \<open>
  Claim C3. \<^verbatim>\<open>listAll\<close> returns for every endpoint: it sends at most 200 times as many
  requests as there are header sets, all for pages between 1 and 200. For every sequence
  of page results fetched one after the other from page 1, where every page but the last
  has at least the page size of records and the last is short or is page 200,
  \<^verbatim>\<open>listAll\<close> fetches exactly these pages and returns their records concatenated. So a
  full page 1 followed by a short page 2 stops after page 2, and 200 full pages stop
  after page 200 and not earlier.
\<close>

theorem listAll_pagination:
  "(\<exists>new. snd (listAll e srv ty os lg) = lg @ new \<and> length new \<le> 200 * length (tries e) \<and>
      (\<forall>rq\<in>set new. 1 \<le> PageNumber (body rq) \<and> PageNumber (body rq) \<le> 200)) \<and>
   (pages_from e srv ty os 1 ds lg = Some lg' \<and> ds \<noteq> [] \<and> length ds \<le> 200 \<and>
    (\<forall>d\<in>set (butlast ds). \<not> length (page_records d) < or_default (pageSize os) 500) \<and>
    (length (page_records (last ds)) < or_default (pageSize os) 500 \<or> length ds = 200) \<longrightarrow>
      listAll e srv ty os lg = (Inr (concat (map page_records ds)), lg')) \<and>
   (pages_from e srv ty os 1 [da, db] lg = Some lg' \<and>
    length (page_records da) = or_default (pageSize os) 500 \<and>
    length (page_records db) < or_default (pageSize os) 500 \<longrightarrow>
      listAll e srv ty os lg = (Inr (page_records da @ page_records db), lg')) \<and>
   (pages_from e srv ty os 1 ds lg = Some lg' \<and> length ds = 200 \<and>
    (\<forall>d\<in>set ds. length (page_records d) = or_default (pageSize os) 500) \<longrightarrow>
      listAll e srv ty os lg = (Inr (concat (map page_records ds)), lg'))"
proof -
  have 1: "\<exists>new. snd (listAll e srv ty os lg) = lg @ new \<and> length new \<le> 200 * length (tries e) \<and>
      (\<forall>rq\<in>set new. 1 \<le> PageNumber (body rq) \<and> PageNumber (body rq) \<le> 200)"
    using listAll_loop_log[of 1 e srv ty os "[]" lg] by (simp add: listAll_def)
  have main: "listAll e srv ty os lg = (Inr (concat (map page_records xs)), lg')"
    if "pages_from e srv ty os 1 xs lg = Some lg'" "xs \<noteq> []" "length xs \<le> 200"
      "\<forall>d\<in>set (butlast xs). \<not> length (page_records d) < or_default (pageSize os) 500"
      "length (page_records (last xs)) < or_default (pageSize os) 500 \<or> length xs = 200"
    for xs
    using listAll_loop_pages[of e srv ty os 1 xs lg lg' "[]"] that
    by (auto simp: listAll_def)
  have 2: "pages_from e srv ty os 1 ds lg = Some lg' \<and> ds \<noteq> [] \<and> length ds \<le> 200 \<and>
    (\<forall>d\<in>set (butlast ds). \<not> length (page_records d) < or_default (pageSize os) 500) \<and>
    (length (page_records (last ds)) < or_default (pageSize os) 500 \<or> length ds = 200) \<longrightarrow>
      listAll e srv ty os lg = (Inr (concat (map page_records ds)), lg')"
    using main[of ds] by blast
  have 3: "pages_from e srv ty os 1 [da, db] lg = Some lg' \<and>
    length (page_records da) = or_default (pageSize os) 500 \<and>
    length (page_records db) < or_default (pageSize os) 500 \<longrightarrow>
      listAll e srv ty os lg = (Inr (page_records da @ page_records db), lg')"
    using main[of "[da, db]"] by simp
  have 4: "pages_from e srv ty os 1 ds lg = Some lg' \<and> length ds = 200 \<and>
    (\<forall>d\<in>set ds. length (page_records d) = or_default (pageSize os) 500) \<longrightarrow>
      listAll e srv ty os lg = (Inr (concat (map page_records ds)), lg')"
  proof (intro impI, elim conjE)
    assume a: "pages_from e srv ty os 1 ds lg = Some lg'" "length ds = 200"
      "\<forall>d\<in>set ds. length (page_records d) = or_default (pageSize os) 500"
    have "ds \<noteq> []" using a(2) by auto
    moreover have "\<forall>d\<in>set (butlast ds). \<not> length (page_records d) < or_default (pageSize os) 500"
      using a(3) by (auto dest: in_set_butlastD)
    ultimately show "listAll e srv ty os lg = (Inr (concat (map page_records ds)), lg')"
      using a main[of ds] by simp
  qed
  show ?thesis
    using 1 2 3 4 by (intro conjI)
qed

text \<open>
  An endpoint that accepts the bearer token and always answers with one record, asked
  with page size 1: the page results from any page on.
\<close>

lemma always_full_pages:
  "1 \<le> pg \<Longrightarrow>
   pages_from
     \<lparr> OT_BASE_URL = ''u'', OT_API_KEY = ''k'', OT_BASIC_USER = None, OT_BASIC_PASS = None \<rparr>
     (\<lambda>lg rq. Response \<lparr> status = 200, body_text = [], body_json = Some (JArr [JNull]) \<rparr>)
     ty \<lparr> page = None, pageSize = Some 1, filters = JUndefined, sortation = JUndefined \<rparr>
     pg (replicate n (JArr [JNull])) lg =
   Some (lg @ map (\<lambda>p. \<lparr> url = ''u/list'',
                    headers = [(''Authorization'', ''Bearer k''),
                               (''Content-Type'', ''application/json'')],
                    body = \<lparr> Type = ty, PageNumber = p, NumberOfRecords = 1, Filters = JArr [],
                             Sortation = JObj [(''PropertyName'', JStr ''Id''),
                                               (''Direction'', JNum (Fin 1))] \<rparr> \<rparr>)
                  [pg ..< pg + n])"
proof (induction n arbitrary: pg lg)
  case 0
  then show ?case by simp
next
  case (Suc n)
  have "[pg ..< pg + Suc n] = pg # [Suc pg ..< Suc pg + n]"
    by (simp add: upt_rec)
  with Suc.prems Suc.IH[of "Suc pg"] show ?case
    by (simp add: fetch_defs)
qed

theorem listAll_pagination_witness:
  "listAll
     \<lparr> OT_BASE_URL = ''u'', OT_API_KEY = ''k'', OT_BASIC_USER = None, OT_BASIC_PASS = None \<rparr>
     (\<lambda>lg rq. Response \<lparr> status = 200, body_text = [], body_json = Some (JArr [JNull]) \<rparr>)
     ''Bin'' \<lparr> page = None, pageSize = Some 1, filters = JUndefined, sortation = JUndefined \<rparr> [] =
   (Inr (replicate 200 JNull),
    map (\<lambda>p. \<lparr> url = ''u/list'',
                 headers = [(''Authorization'', ''Bearer k''),
                            (''Content-Type'', ''application/json'')],
                 body = \<lparr> Type = ''Bin'', PageNumber = p, NumberOfRecords = 1, Filters = JArr [],
                          Sortation = JObj [(''PropertyName'', JStr ''Id''),
                                            (''Direction'', JNum (Fin 1))] \<rparr> \<rparr>)
      [1 ..< 201]) \<and>
   listAll
     \<lparr> OT_BASE_URL = ''u'', OT_API_KEY = ''k'', OT_BASIC_USER = None, OT_BASIC_PASS = None \<rparr>
     (\<lambda>lg rq. Response \<lparr> status = 200, body_text = [],
        body_json = Some (JObj [(''Records'',
          JArr (if PageNumber (body rq) = 1 then [JStr ''a'', JStr ''b''] else [JStr ''c'']))]) \<rparr>)
     ''Bin'' \<lparr> page = None, pageSize = Some 2, filters = JUndefined, sortation = JUndefined \<rparr> [] =
   (Inr [JStr ''a'', JStr ''b'', JStr ''c''],
    map (\<lambda>p. \<lparr> url = ''u/list'',
                 headers = [(''Authorization'', ''Bearer k''),
                            (''Content-Type'', ''application/json'')],
                 body = \<lparr> Type = ''Bin'', PageNumber = p, NumberOfRecords = 2, Filters = JArr [],
                          Sortation = JObj [(''PropertyName'', JStr ''Id''),
                                            (''Direction'', JNum (Fin 1))] \<rparr> \<rparr>)
      [1, 2])"
proof -
  have cat: "concat (replicate n (page_records (JArr [JNull]))) = replicate n JNull" for n
    by (induction n) (simp_all add: page_records_def optget_def nullish_def)
  have "listAll
     \<lparr> OT_BASE_URL = ''u'', OT_API_KEY = ''k'', OT_BASIC_USER = None, OT_BASIC_PASS = None \<rparr>
     (\<lambda>lg rq. Response \<lparr> status = 200, body_text = [], body_json = Some (JArr [JNull]) \<rparr>)
     ''Bin'' \<lparr> page = None, pageSize = Some 1, filters = JUndefined, sortation = JUndefined \<rparr> [] =
   (Inr (concat (map page_records (replicate 200 (JArr [JNull])))),
    [] @ map (\<lambda>p. \<lparr> url = ''u/list'',
                 headers = [(''Authorization'', ''Bearer k''),
                            (''Content-Type'', ''application/json'')],
                 body = \<lparr> Type = ''Bin'', PageNumber = p, NumberOfRecords = 1, Filters = JArr [],
                          Sortation = JObj [(''PropertyName'', JStr ''Id''),
                                            (''Direction'', JNum (Fin 1))] \<rparr> \<rparr>)
      [1 ..< 1 + 200])"
    using listAll_pagination[where ds = "replicate 200 (JArr [JNull])" and lg = "[]"
        and e = "\<lparr> OT_BASE_URL = ''u'', OT_API_KEY = ''k'', OT_BASIC_USER = None,
                   OT_BASIC_PASS = None \<rparr>"
        and srv = "\<lambda>lg rq. Response \<lparr> status = 200, body_text = [],
                   body_json = Some (JArr [JNull]) \<rparr>"
        and ty = "''Bin''"
        and os = "\<lparr> page = None, pageSize = Some 1, filters = JUndefined,
                    sortation = JUndefined \<rparr>"]
      always_full_pages[of 1 "''Bin''" 200 "[]"]
    by (simp add: page_records_def optget_def nullish_def or_default_def)
  then have cap: "listAll
     \<lparr> OT_BASE_URL = ''u'', OT_API_KEY = ''k'', OT_BASIC_USER = None, OT_BASIC_PASS = None \<rparr>
     (\<lambda>lg rq. Response \<lparr> status = 200, body_text = [], body_json = Some (JArr [JNull]) \<rparr>)
     ''Bin'' \<lparr> page = None, pageSize = Some 1, filters = JUndefined, sortation = JUndefined \<rparr> [] =
   (Inr (replicate 200 JNull),
    map (\<lambda>p. \<lparr> url = ''u/list'',
                 headers = [(''Authorization'', ''Bearer k''),
                            (''Content-Type'', ''application/json'')],
                 body = \<lparr> Type = ''Bin'', PageNumber = p, NumberOfRecords = 1, Filters = JArr [],
                          Sortation = JObj [(''PropertyName'', JStr ''Id''),
                                            (''Direction'', JNum (Fin 1))] \<rparr> \<rparr>)
      [1 ..< 201])"
    by (simp add: cat)
  have short: "listAll
     \<lparr> OT_BASE_URL = ''u'', OT_API_KEY = ''k'', OT_BASIC_USER = None, OT_BASIC_PASS = None \<rparr>
     (\<lambda>lg rq. Response \<lparr> status = 200, body_text = [],
        body_json = Some (JObj [(''Records'',
          JArr (if PageNumber (body rq) = 1 then [JStr ''a'', JStr ''b''] else [JStr ''c'']))]) \<rparr>)
     ''Bin'' \<lparr> page = None, pageSize = Some 2, filters = JUndefined, sortation = JUndefined \<rparr> [] =
   (Inr [JStr ''a'', JStr ''b'', JStr ''c''],
    map (\<lambda>p. \<lparr> url = ''u/list'',
                 headers = [(''Authorization'', ''Bearer k''),
                            (''Content-Type'', ''application/json'')],
                 body = \<lparr> Type = ''Bin'', PageNumber = p, NumberOfRecords = 2, Filters = JArr [],
                          Sortation = JObj [(''PropertyName'', JStr ''Id''),
                                            (''Direction'', JNum (Fin 1))] \<rparr> \<rparr>)
      [1, 2])"
    using listAll_pagination[where
        ds = "[JObj [(''Records'', JArr [JStr ''a'', JStr ''b''])],
               JObj [(''Records'', JArr [JStr ''c''])]]"
        and da = "JObj [(''Records'', JArr [JStr ''a'', JStr ''b''])]"
        and db = "JObj [(''Records'', JArr [JStr ''c''])]"
        and lg = "[]"
        and lg' = "map (\<lambda>p. \<lparr> url = ''u/list'',
                 headers = [(''Authorization'', ''Bearer k''),
                            (''Content-Type'', ''application/json'')],
                 body = \<lparr> Type = ''Bin'', PageNumber = p, NumberOfRecords = 2, Filters = JArr [],
                          Sortation = JObj [(''PropertyName'', JStr ''Id''),
                                            (''Direction'', JNum (Fin 1))] \<rparr> \<rparr>)
           [1, 2]"
        and e = "\<lparr> OT_BASE_URL = ''u'', OT_API_KEY = ''k'', OT_BASIC_USER = None,
                   OT_BASIC_PASS = None \<rparr>"
        and srv = "\<lambda>lg rq. Response \<lparr> status = 200, body_text = [],
           body_json = Some (JObj [(''Records'',
             JArr (if PageNumber (body rq) = 1 then [JStr ''a'', JStr ''b''] else [JStr ''c'']))]) \<rparr>"
        and ty = "''Bin''"
        and os = "\<lparr> page = None, pageSize = Some 2, filters = JUndefined,
                    sortation = JUndefined \<rparr>"]
    by (simp add: fetch_defs)
  show ?thesis
    using cap short by (rule conjI)
qed

end
